theory Spec2Isabelle
  imports Main
begin

section \<open>Strings\<close>

text \<open>
  A JavaScript string is a sequence of UTF-16 code units. A code unit is modelled as a
  natural number (0 .. 65535), a string as a list of them. ASCII literals are written
  with \<open>asc\<close>.
\<close>

type_synonym jstr = "nat list"

definition asc :: "string \<Rightarrow> jstr" where
  "asc s = map of_char s"

text \<open>
  \<open>js_ws\<close>: the code units that \<open>String.prototype.trim\<close> strips and that \<open>\\s\<close>
  matches in a regular expression (WhiteSpace and LineTerminator of ECMAScript).
  U+200B is not among them.
\<close>

definition js_ws :: "nat \<Rightarrow> bool" where
  "js_ws c \<longleftrightarrow>
     (9 \<le> c \<and> c \<le> 13) \<or> c = 32 \<or> c = 160 \<or> c = 5760 \<or> (8192 \<le> c \<and> c \<le> 8202) \<or>
     c = 8232 \<or> c = 8233 \<or> c = 8239 \<or> c = 8287 \<or> c = 12288 \<or> c = 65279"

definition trim :: "jstr \<Rightarrow> jstr" where
  "trim s = rev (dropWhile js_ws (rev (dropWhile js_ws s)))"

text \<open>\<open>s.replace(/\\u200B/g, '')\<close>: every code unit 0x200B is deleted.\<close>

definition zwsp :: nat where
  "zwsp = 8203"

definition strip_zwsp :: "jstr \<Rightarrow> jstr" where
  "strip_zwsp s = filter (\<lambda>c. c \<noteq> zwsp) s"

text \<open>\<open>indexOf\<close> and \<open>lastIndexOf\<close> of one code unit; \<open>None\<close> is the result -1.\<close>

fun indexOf :: "nat \<Rightarrow> jstr \<Rightarrow> nat option" where
  "indexOf c [] = None"
| "indexOf c (x # xs) = (if x = c then Some 0 else map_option Suc (indexOf c xs))"

fun lastIndexOf :: "nat \<Rightarrow> jstr \<Rightarrow> nat option" where
  "lastIndexOf c [] = None"
| "lastIndexOf c (x # xs) =
     (case lastIndexOf c xs of
        Some i \<Rightarrow> Some (Suc i)
      | None \<Rightarrow> if x = c then Some 0 else None)"

text \<open>\<open>s.slice(i, j)\<close> for \<open>0 \<le> i \<le> j\<close>.\<close>

definition slice :: "jstr \<Rightarrow> nat \<Rightarrow> nat \<Rightarrow> jstr" where
  "slice s i j = take (j - i) (drop i s)"

text \<open>\<open>s.split(/\\r?\\n/)\<close>: the separators are LF and CR LF; the first argument is the
  current line, reversed.\<close>

fun split_lines :: "jstr \<Rightarrow> jstr \<Rightarrow> jstr list" where
  "split_lines cur [] = [rev cur]"
| "split_lines cur [c] = (if c = 10 then [rev cur, []] else [rev (c # cur)])"
| "split_lines cur (c # d # ds) =
     (if c = 10 then rev cur # split_lines [] (d # ds)
      else if c = 13 \<and> d = 10 then rev cur # split_lines [] ds
      else split_lines (c # cur) (d # ds))"

text \<open>\<open>xs.join(sep)\<close> on a list of strings.\<close>

fun join :: "jstr \<Rightarrow> jstr list \<Rightarrow> jstr" where
  "join sep [] = []"
| "join sep [x] = x"
| "join sep (x # y # ys) = x @ sep @ join sep (y # ys)"

section \<open>JSON values and \<open>JSON.parse\<close>\<close>

text \<open>
  \<open>JSON.parse\<close> belongs to the language, not to the program; it is modelled after
  the JSON grammar of ECMAScript, as a lexer and a parser.

  The values \<open>JSON.parse\<close> returns: a number keeps the exact decimal value of its
  literal, as mantissa and decimal exponent (the JavaScript number is the double nearest
  to it). An object keeps its members in source order; a later member with the same key
  overrides an earlier one.
\<close>

datatype json =
    JNull
  | JBool bool
  | JNum int int
  | JStr jstr
  | JArr "json list"
  | JObj "(jstr \<times> json) list"

datatype token =
    TLBrace | TRBrace | TLBrack | TRBrack | TColon | TComma
  | TStr jstr | TNum int int | TTrue | TFalse | TNull

definition json_ws :: "nat \<Rightarrow> bool" where
  "json_ws c \<longleftrightarrow> c = 9 \<or> c = 10 \<or> c = 13 \<or> c = 32"

definition is_digit :: "nat \<Rightarrow> bool" where
  "is_digit c \<longleftrightarrow> 48 \<le> c \<and> c \<le> 57"

definition hexval :: "nat \<Rightarrow> nat option" where
  "hexval c =
     (if 48 \<le> c \<and> c \<le> 57 then Some (c - 48)
      else if 65 \<le> c \<and> c \<le> 70 then Some (c - 55)
      else if 97 \<le> c \<and> c \<le> 102 then Some (c - 87)
      else None)"

text \<open>The single-character escapes of a JSON string: \<open>\\" \\\\ \\/ \\b \\f \\n \\r \\t\<close>.\<close>

definition unescape :: "nat \<Rightarrow> nat option" where
  "unescape e =
     (if e = 34 \<or> e = 92 \<or> e = 47 then Some e
      else if e = 98 then Some 8
      else if e = 102 then Some 12
      else if e = 110 then Some 10
      else if e = 114 then Some 13
      else if e = 116 then Some 9
      else None)"

definition hex4 :: "nat \<Rightarrow> nat \<Rightarrow> nat \<Rightarrow> nat \<Rightarrow> nat option" where
  "hex4 a b c d =
     (case (hexval a, hexval b, hexval c, hexval d) of
        (Some w, Some x, Some y, Some z) \<Rightarrow> Some (((w * 16 + x) * 16 + y) * 16 + z)
      | _ \<Rightarrow> None)"

text \<open>
  The lexer works as an implementation with a position in the text does: reading a
  literal gives its value and the number of code units read.

  \<open>lex_string acc n s\<close> reads a string literal after its opening quote (\<open>acc\<close> is the
  content read so far, reversed, \<open>n\<close> the number of code units read so far). A control
  character below U+0020, an unknown escape and a missing closing quote are syntax
  errors.
\<close>

fun lex_string :: "jstr \<Rightarrow> nat \<Rightarrow> jstr \<Rightarrow> (jstr \<times> nat) option" where
  "lex_string acc n [] = None"
| "lex_string acc n (c # cs) =
     (if c = 34 then Some (rev acc, Suc n)
      else if c = 92 then
        (case cs of
           [] \<Rightarrow> None
         | e # es \<Rightarrow>
             if e = 117 then
               (case es of
                  h1 # h2 # h3 # h4 # r \<Rightarrow>
                    (case hex4 h1 h2 h3 h4 of
                       Some u \<Rightarrow> lex_string (u # acc) (n + 6) r
                     | None \<Rightarrow> None)
                | _ \<Rightarrow> None)
             else
               (case unescape e of
                  Some u \<Rightarrow> lex_string (u # acc) (n + 2) es
                | None \<Rightarrow> None))
      else if c < 32 then None
      else lex_string (c # acc) (Suc n) cs)"

text \<open>The value of a run of decimal digits.\<close>

definition digits_val :: "jstr \<Rightarrow> int" where
  "digits_val ds = foldl (\<lambda>a d. 10 * a + int (d - 48)) 0 ds"

text \<open>
  A number literal is
  \<open>-? (0 | [1-9][0-9]*) (. [0-9]+)? ([eE] [+-]? [0-9]+)?\<close>.
  \<open>lex_int\<close> reads the integer part, \<open>lex_frac\<close> the optional fraction (its digits
  and the code units read), \<open>lex_exp\<close> the optional exponent (its value and the code
  units read), \<open>lex_number\<close> the whole literal.
\<close>

definition lex_int :: "jstr \<Rightarrow> jstr option" where
  "lex_int s =
     (let ip = takeWhile is_digit s
      in if ip = [] \<or> (hd ip = 48 \<and> 1 < length ip) then None else Some ip)"

definition lex_frac :: "jstr \<Rightarrow> (jstr \<times> nat) option" where
  "lex_frac s =
     (if s \<noteq> [] \<and> hd s = 46 then
        (let fp = takeWhile is_digit (tl s)
         in if fp = [] then None else Some (fp, Suc (length fp)))
      else Some ([], 0))"

definition lex_exp :: "jstr \<Rightarrow> (int \<times> nat) option" where
  "lex_exp s =
     (if s \<noteq> [] \<and> (hd s = 101 \<or> hd s = 69) then
        (let cs = tl s;
             signed = (cs \<noteq> [] \<and> (hd cs = 45 \<or> hd cs = 43));
             neg = (cs \<noteq> [] \<and> hd cs = 45);
             ep = takeWhile is_digit (if signed then tl cs else cs)
         in if ep = [] then None
            else Some (if neg then - digits_val ep else digits_val ep,
                       Suc (length ep) + (if signed then 1 else 0)))
      else Some (0, 0))"

definition lex_number :: "jstr \<Rightarrow> (token \<times> nat) option" where
  "lex_number s =
     (let neg = (s \<noteq> [] \<and> hd s = 45);
          s1 = (if neg then tl s else s)
      in case lex_int s1 of
           None \<Rightarrow> None
         | Some ip \<Rightarrow>
            (case lex_frac (drop (length ip) s1) of
               None \<Rightarrow> None
             | Some (fp, nf) \<Rightarrow>
                (case lex_exp (drop (length ip + nf) s1) of
                   None \<Rightarrow> None
                 | Some (e, ne) \<Rightarrow>
                     Some (TNum (if neg then - digits_val (ip @ fp) else digits_val (ip @ fp))
                             (e - int (length fp)),
                           (if neg then 1 else 0) + length ip + nf + ne))))"

text \<open>
  \<open>lex_token c cs\<close> reads the token that starts with the code unit \<open>c\<close>, followed
  by \<open>cs\<close>: the token and the number of code units of \<open>cs\<close> that belong to it. A
  number literal starts at \<open>c\<close> itself, so \<open>n - 1\<close> of its code units are in
  \<open>cs\<close>. Anything that starts no token is a syntax error (\<open>None\<close>).
\<close>

definition lex_token :: "nat \<Rightarrow> jstr \<Rightarrow> (token \<times> nat) option" where
  "lex_token c cs =
     (if c = 123 then Some (TLBrace, 0)
      else if c = 125 then Some (TRBrace, 0)
      else if c = 91 then Some (TLBrack, 0)
      else if c = 93 then Some (TRBrack, 0)
      else if c = 58 then Some (TColon, 0)
      else if c = 44 then Some (TComma, 0)
      else if c = 34 then
        (case lex_string [] 0 cs of
           None \<Rightarrow> None
         | Some (s, n) \<Rightarrow> Some (TStr s, n))
      else if c = 45 \<or> is_digit c then
        (case lex_number (c # cs) of
           None \<Rightarrow> None
         | Some (t, n) \<Rightarrow> Some (t, n - 1))
      else if take 4 (c # cs) = asc ''true'' then Some (TTrue, 3)
      else if take 5 (c # cs) = asc ''false'' then Some (TFalse, 4)
      else if take 4 (c # cs) = asc ''null'' then Some (TNull, 3)
      else None)"

text \<open>The lexer: JSON white space (tab, LF, CR, space) separates the tokens.\<close>

fun lex :: "jstr \<Rightarrow> token list option" where
  "lex [] = Some []"
| "lex (c # cs) =
     (if json_ws c then lex cs
      else
        (case lex_token c cs of
           None \<Rightarrow> None
         | Some (t, n) \<Rightarrow> map_option (Cons t) (lex (drop n cs))))"

section \<open>The parser\<close>

text \<open>
  The parser is a pushdown automaton over the tokens. A frame of the stack is an open
  array with its elements so far, an open object with its members so far (both
  reversed), or a member name that waits for its value.
\<close>

datatype frame = FArr "json list" | FObj "(jstr \<times> json) list" | FKey jstr

datatype mode =
    MValue          \<comment> \<open>a value must follow\<close>
  | MValueOrClose   \<comment> \<open>after \<open>[\<close>: a value or \<open>]\<close>\<close>
  | MKeyOrClose     \<comment> \<open>after \<open>{\<close>: a member name or \<open>}\<close>\<close>
  | MKey            \<comment> \<open>after \<open>,\<close> in an object: a member name\<close>
  | MColon          \<comment> \<open>after a member name\<close>
  | MAfter          \<comment> \<open>after a value inside an array or object\<close>
  | MDone json      \<comment> \<open>the whole value is read\<close>

text \<open>A value is complete: it is the result, an array element or a member's value.\<close>

fun complete :: "json \<Rightarrow> frame list \<Rightarrow> (mode \<times> frame list) option" where
  "complete v [] = Some (MDone v, [])"
| "complete v (FArr es # st) = Some (MAfter, FArr (v # es) # st)"
| "complete v (FKey k # FObj ms # st) = Some (MAfter, FObj ((k, v) # ms) # st)"
| "complete v _ = None"

fun scalar :: "token \<Rightarrow> json option" where
  "scalar (TStr s) = Some (JStr s)"
| "scalar (TNum m e) = Some (JNum m e)"
| "scalar TTrue = Some (JBool True)"
| "scalar TFalse = Some (JBool False)"
| "scalar TNull = Some JNull"
| "scalar _ = None"

definition value_start :: "token \<Rightarrow> frame list \<Rightarrow> (mode \<times> frame list) option" where
  "value_start t st =
     (if t = TLBrack then Some (MValueOrClose, FArr [] # st)
      else if t = TLBrace then Some (MKeyOrClose, FObj [] # st)
      else (case scalar t of Some v \<Rightarrow> complete v st | None \<Rightarrow> None))"

definition close_arr :: "frame list \<Rightarrow> (mode \<times> frame list) option" where
  "close_arr st = (case st of FArr es # st' \<Rightarrow> complete (JArr (rev es)) st' | _ \<Rightarrow> None)"

definition close_obj :: "frame list \<Rightarrow> (mode \<times> frame list) option" where
  "close_obj st = (case st of FObj ms # st' \<Rightarrow> complete (JObj (rev ms)) st' | _ \<Rightarrow> None)"

definition key_start :: "token \<Rightarrow> frame list \<Rightarrow> (mode \<times> frame list) option" where
  "key_start t st = (case t of TStr k \<Rightarrow> Some (MColon, FKey k # st) | _ \<Rightarrow> None)"

fun step :: "mode \<Rightarrow> frame list \<Rightarrow> token \<Rightarrow> (mode \<times> frame list) option" where
  "step MValue st t = value_start t st"
| "step MValueOrClose st t = (if t = TRBrack then close_arr st else value_start t st)"
| "step MKeyOrClose st t = (if t = TRBrace then close_obj st else key_start t st)"
| "step MKey st t = key_start t st"
| "step MColon st t = (if t = TColon then Some (MValue, st) else None)"
| "step MAfter st t =
     (if t = TComma then
        (case st of
           FArr es # st' \<Rightarrow> Some (MValue, st)
         | FObj ms # st' \<Rightarrow> Some (MKey, st)
         | _ \<Rightarrow> None)
      else if t = TRBrack then close_arr st
      else if t = TRBrace then close_obj st
      else None)"
| "step (MDone v) st t = None"

fun pda :: "mode \<Rightarrow> frame list \<Rightarrow> token list \<Rightarrow> json option" where
  "pda m st [] = (case m of MDone v \<Rightarrow> Some v | _ \<Rightarrow> None)"
| "pda m st (t # ts) = (case step m st t of None \<Rightarrow> None | Some (m', st') \<Rightarrow> pda m' st' ts)"

text \<open>\<open>JSON.parse(s)\<close>; \<open>None\<close> is the SyntaxError it throws.\<close>

definition json_parse :: "jstr \<Rightarrow> json option" where
  "json_parse s = (case lex s of None \<Rightarrow> None | Some ts \<Rightarrow> pda MValue [] ts)"

section \<open>Regular expressions\<close>

text \<open>
  The regular expressions of the program are sequences of atoms: one code unit, a
  greedy or a lazy star over a character class, the parentheses of group 1, and the end
  of the input. \<open>rmatch\<close> is the backtracking matcher of ECMAScript on them, anchored at
  the start of its input: a greedy star first takes one more code unit and gives it
  back when the rest of the pattern fails, a lazy star first tries the rest of the
  pattern. A match is the input at the opening parenthesis, the input at the closing
  parenthesis, and the input after the match.
\<close>

datatype cclass =
    CLetter   \<comment> \<open>\<open>[a-zA-Z]\<close>\<close>
  | CTag      \<comment> \<open>\<open>[a-zA-Z0-9_-]\<close>\<close>
  | CSpace    \<comment> \<open>\<open>\\s\<close>\<close>
  | CAny      \<comment> \<open>\<open>[\\s\\S]\<close>\<close>
  | COne nat  \<comment> \<open>one code unit\<close>

fun in_class :: "cclass \<Rightarrow> nat \<Rightarrow> bool" where
  "in_class CLetter c = ((97 \<le> c \<and> c \<le> 122) \<or> (65 \<le> c \<and> c \<le> 90))"
| "in_class CTag c =
     ((97 \<le> c \<and> c \<le> 122) \<or> (65 \<le> c \<and> c \<le> 90) \<or> (48 \<le> c \<and> c \<le> 57) \<or> c = 95 \<or> c = 45)"
| "in_class CSpace c = js_ws c"
| "in_class CAny c = True"
| "in_class (COne d) c = (c = d)"

datatype ratom = RChar nat | RStar cclass | RLazy cclass | ROpen | RClose | REnd

type_synonym rmatch_result = "jstr \<times> jstr \<times> jstr"

fun rmatch :: "ratom list \<Rightarrow> jstr \<Rightarrow> jstr \<Rightarrow> jstr \<Rightarrow> rmatch_result option" where
  "rmatch [] s go gc = Some (go, gc, s)"
| "rmatch (RChar c # r) [] go gc = None"
| "rmatch (RChar c # r) (x # xs) go gc = (if x = c then rmatch r xs go gc else None)"
| "rmatch (RStar k # r) [] go gc = rmatch r [] go gc"
| "rmatch (RStar k # r) (x # xs) go gc =
     (if in_class k x then
        (case rmatch (RStar k # r) xs go gc of
           Some m \<Rightarrow> Some m
         | None \<Rightarrow> rmatch r (x # xs) go gc)
      else rmatch r (x # xs) go gc)"
| "rmatch (RLazy k # r) [] go gc = rmatch r [] go gc"
| "rmatch (RLazy k # r) (x # xs) go gc =
     (case rmatch r (x # xs) go gc of
        Some m \<Rightarrow> Some m
      | None \<Rightarrow> if in_class k x then rmatch (RLazy k # r) xs go gc else None)"
| "rmatch (ROpen # r) s go gc = rmatch r s s gc"
| "rmatch (RClose # r) s go gc = rmatch r s go s"
| "rmatch (REnd # r) s go gc = (if s = [] then rmatch r s go gc else None)"

text \<open>An unanchored search: the leftmost position where the pattern matches.\<close>

fun re_search :: "ratom list \<Rightarrow> jstr \<Rightarrow> rmatch_result option" where
  "re_search re [] = rmatch re [] [] []"
| "re_search re (c # cs) =
     (case rmatch re (c # cs) [] [] of
        Some m \<Rightarrow> Some m
      | None \<Rightarrow> re_search re cs)"

definition group1 :: "rmatch_result \<Rightarrow> jstr" where
  "group1 m = (case m of (go, gc, rest) \<Rightarrow> take (length go - length gc) go)"

definition after_match :: "rmatch_result \<Rightarrow> jstr" where
  "after_match m = (case m of (go, gc, rest) \<Rightarrow> rest)"

definition backticks :: jstr where
  "backticks = [96, 96, 96]"

text \<open>\<open>/```[a-zA-Z]*\\s*([\\s\\S]*?)\\s*```/\<close>\<close>

definition fence_re :: "ratom list" where
  "fence_re =
     [RChar 96, RChar 96, RChar 96, RStar CLetter, RStar CSpace,
      ROpen, RLazy CAny, RClose, RStar CSpace, RChar 96, RChar 96, RChar 96]"

text \<open>\<open>/^```[a-zA-Z0-9_-]*\\s*$/\<close>\<close>

definition fence_line_re :: "ratom list" where
  "fence_line_re = [RChar 96, RChar 96, RChar 96, RStar CTag, RStar CSpace, REnd]"

text \<open>\<open>/^#+\\s*/\<close>\<close>

definition heading_re :: "ratom list" where
  "heading_re = [RChar 35, RStar (COne 35), RStar CSpace]"

section \<open>JavaScript values\<close>

datatype error = TypeError

text \<open>
  \<open>truthy\<close>: ToBoolean. A number is falsy when it is zero: the double nearest to
  \<open>m * 10 ^ e\<close> is zero exactly when \<open>\<bar>m * 10 ^ e\<bar> \<le> 2 ^ -1075\<close>.
\<close>

definition num_nonzero :: "int \<Rightarrow> int \<Rightarrow> bool" where
  "num_nonzero m e \<longleftrightarrow> (if 0 \<le> e then m \<noteq> 0 else 10 ^ nat (- e) < \<bar>m\<bar> * 2 ^ 1075)"

fun truthy :: "json \<Rightarrow> bool" where
  "truthy JNull = False"
| "truthy (JBool b) = b"
| "truthy (JNum m e) = num_nonzero m e"
| "truthy (JStr s) = (s \<noteq> [])"
| "truthy (JArr xs) = True"
| "truthy (JObj ms) = True"

text \<open>
  \<open>js_get v k\<close>: the property \<open>v.k\<close> for the names the program reads (\<open>title\<close>,
  \<open>draftBody\<close>, \<open>tags\<close>); \<open>None\<close> is \<open>undefined\<close>. An object made by
  \<open>JSON.parse\<close> has the member that was written last; no other value has these
  properties.
\<close>

fun js_get :: "json \<Rightarrow> jstr \<Rightarrow> json option" where
  "js_get (JObj ms) k = map_of (rev ms) k"
| "js_get _ k = None"

text \<open>\<open>v || ''\<close>\<close>

fun or_empty :: "json option \<Rightarrow> json" where
  "or_empty None = JStr []"
| "or_empty (Some v) = (if truthy v then v else JStr [])"

text \<open>The first error of a list of results, or all the values.\<close>

fun collect :: "(error + 'a) list \<Rightarrow> error + 'a list" where
  "collect [] = Inr []"
| "collect (Inl e # rs) = Inl e"
| "collect (Inr x # rs) = (case collect rs of Inl e \<Rightarrow> Inl e | Inr xs \<Rightarrow> Inr (x # xs))"

text \<open>
  \<open>js_String nts v\<close> is \<open>String(v)\<close>. The text of a number is left to the parameter
  \<open>nts\<close> (Number::toString of the double nearest to \<open>m * 10 ^ e\<close>). An array is
  its elements joined by commas, \<open>null\<close> elements as the empty string. An object is
  converted by OrdinaryToPrimitive: its \<open>toString\<close> is called when it is callable,
  then its \<open>valueOf\<close>. An own member \<open>toString\<close> of a parsed object is never
  callable, and \<open>valueOf\<close> (own and not callable, or \<open>Object.prototype.valueOf\<close>,
  which returns the object) gives no primitive value: a TypeError is thrown. Without such
  a member \<open>Object.prototype.toString\<close> gives \<open>[object Object]\<close>.
\<close>

fun js_String :: "(int \<Rightarrow> int \<Rightarrow> jstr) \<Rightarrow> json \<Rightarrow> error + jstr" where
  "js_String nts JNull = Inr (asc ''null'')"
| "js_String nts (JBool b) = Inr (if b then asc ''true'' else asc ''false'')"
| "js_String nts (JNum m e) = Inr (nts m e)"
| "js_String nts (JStr s) = Inr s"
| "js_String nts (JArr xs) =
     (case collect (map (\<lambda>x. if x = JNull then Inr [] else js_String nts x) xs) of
        Inl e \<Rightarrow> Inl e
      | Inr ss \<Rightarrow> Inr (join [44] ss))"
| "js_String nts (JObj ms) =
     (if map_of (rev ms) (asc ''toString'') = None then Inr (asc ''[object Object]'')
      else Inl TypeError)"

section \<open>The program\<close>

subsection \<open>extractJsonFlexible\<close>

text \<open>
  The candidate of the fenced-block strategy: \<open>fence[1].trim()\<close> when the regular
  expression matches and its group is not empty.
\<close>

definition fence_candidate :: "jstr \<Rightarrow> jstr option" where
  "fence_candidate text =
     (case re_search fence_re text of
        None \<Rightarrow> None
      | Some m \<Rightarrow> if group1 m \<noteq> [] then Some (trim (group1 m)) else None)"

text \<open>
  The candidate of the object-slice strategy: from the first \<open>{\<close> to the last \<open>}\<close>,
  when both exist and the last \<open>}\<close> is after the first \<open>{\<close>.
\<close>

definition slice_candidate :: "jstr \<Rightarrow> jstr option" where
  "slice_candidate text =
     (case (indexOf 123 text, lastIndexOf 125 text) of
        (Some firstBrace, Some lastBrace) \<Rightarrow>
          if firstBrace < lastBrace then Some (slice text firstBrace (lastBrace + 1)) else None
      | _ \<Rightarrow> None)"

text \<open>A strategy parses its candidate; a syntax error is caught and ignored.\<close>

definition try_parse :: "jstr option \<Rightarrow> json option" where
  "try_parse cand = (case cand of None \<Rightarrow> None | Some s \<Rightarrow> json_parse s)"

definition prepare :: "jstr \<Rightarrow> jstr" where
  "prepare raw = strip_zwsp (trim raw)"

definition extractJsonFlexible :: "jstr \<Rightarrow> json" where
  "extractJsonFlexible raw =
     (let text = prepare raw
      in case json_parse text of
           Some v \<Rightarrow> v
         | None \<Rightarrow>
            (case try_parse (fence_candidate text) of
               Some v \<Rightarrow> v
             | None \<Rightarrow>
                (case try_parse (slice_candidate text) of
                   Some v \<Rightarrow> v
                 | None \<Rightarrow> JNull)))"

subsection \<open>repairJson\<close>

text \<open>
  The call of the generation model is the parameter \<open>gen\<close>: the text it answers to
  the prompt \<open>String(raw)\<close>.
\<close>

definition repairJson :: "(jstr \<Rightarrow> jstr) \<Rightarrow> jstr \<Rightarrow> json" where
  "repairJson gen raw =
     (let text = gen raw
      in case json_parse text of
           Some v \<Rightarrow> v
         | None \<Rightarrow> extractJsonFlexible text)"

subsection \<open>sanitizeTitle\<close>

definition placeholder :: jstr where
  "placeholder = [12479, 12452, 12488, 12523, 65288, 33258, 21205, 29983, 25104, 65289]"

text \<open>\<open>s.replace(/^q+|q+$/g, '')\<close> for a code unit \<open>q\<close>: the run of \<open>q\<close> at the start
  and the run of \<open>q\<close> at the end are deleted.\<close>

definition strip_both :: "nat \<Rightarrow> jstr \<Rightarrow> jstr" where
  "strip_both q s = rev (dropWhile (\<lambda>c. c = q) (rev (dropWhile (\<lambda>c. c = q) s)))"

definition to_lower :: "nat \<Rightarrow> nat" where
  "to_lower c = (if 65 \<le> c \<and> c \<le> 90 then c + 32 else c)"

text \<open>The replacements of \<open>sanitizeTitle\<close>, one definition for each line of the source.\<close>

definition strip_fence_line :: "jstr \<Rightarrow> jstr" where
  "strip_fence_line t =
     (let t1 = (case rmatch fence_line_re t [] [] of Some m \<Rightarrow> [] | None \<Rightarrow> t)
      in if t1 = backticks then [] else t1)"

definition strip_heading :: "jstr \<Rightarrow> jstr" where
  "strip_heading t = (case rmatch heading_re t [] [] of Some m \<Rightarrow> after_match m | None \<Rightarrow> t)"

definition strip_quotes :: "jstr \<Rightarrow> jstr" where
  "strip_quotes t = strip_both 39 (strip_both 34 t)"

definition strip_json_label :: "jstr \<Rightarrow> jstr" where
  "strip_json_label t = (if map to_lower t = asc ''json'' then [] else t)"

text \<open>The title before the last \<open>trim()\<close>, and after it.\<close>

definition stripped_title :: "jstr \<Rightarrow> jstr" where
  "stripped_title s =
     strip_json_label (strip_both 96 (strip_quotes (strip_heading (strip_fence_line (trim s)))))"

definition clean_title :: "jstr \<Rightarrow> jstr" where
  "clean_title s = trim (stripped_title s)"

text \<open>\<open>if (!title) title = placeholder\<close>\<close>

definition title_of :: "jstr \<Rightarrow> jstr" where
  "title_of s = (if clean_title s = [] then placeholder else clean_title s)"

definition sanitizeTitle :: "(int \<Rightarrow> int \<Rightarrow> jstr) \<Rightarrow> json option \<Rightarrow> error + jstr" where
  "sanitizeTitle nts v =
     (case js_String nts (or_empty v) of
        Inl e \<Rightarrow> Inl e
      | Inr s \<Rightarrow> Inr (title_of s))"

subsection \<open>deriveTitleFromText\<close>

definition text_lines :: "jstr \<Rightarrow> jstr list" where
  "text_lines text = filter (\<lambda>l. l \<noteq> []) (map trim (split_lines [] text))"

definition is_fence_line :: "jstr \<Rightarrow> bool" where
  "is_fence_line l \<longleftrightarrow> take 3 l = backticks"

definition firstRealLine :: "jstr \<Rightarrow> jstr" where
  "firstRealLine text =
     (case find (\<lambda>l. \<not> is_fence_line l) (text_lines text) of
        Some l \<Rightarrow> l
      | None \<Rightarrow> (case text_lines text of l # ls \<Rightarrow> l | [] \<Rightarrow> []))"

definition deriveTitleFromText :: "(int \<Rightarrow> int \<Rightarrow> jstr) \<Rightarrow> jstr \<Rightarrow> error + jstr" where
  "deriveTitleFromText nts text = sanitizeTitle nts (Some (JStr (firstRealLine text)))"

subsection \<open>main\<close>

record draft =
  title :: jstr
  draftBody :: jstr
  tags :: "jstr list"

text \<open>\<open>Array.from(new Set(xs))\<close>: the first occurrence of each element, in order.\<close>

definition set_add :: "jstr list \<Rightarrow> jstr \<Rightarrow> jstr list" where
  "set_add acc x = (if x \<in> set acc then acc else acc @ [x])"

definition array_from_set :: "jstr list \<Rightarrow> jstr list" where
  "array_from_set xs = foldl set_add [] xs"

text \<open>\<open>parsed = extractJsonFlexible(text) || (await repairJson(text))\<close>\<close>

definition parsed_of :: "(jstr \<Rightarrow> jstr) \<Rightarrow> jstr \<Rightarrow> json" where
  "parsed_of gen text =
     (if truthy (extractJsonFlexible text) then extractJsonFlexible text
      else repairJson gen text)"

text \<open>\<open>Array.isArray(parsed.tags) ? parsed.tags.map(String) : []\<close>\<close>

definition tags_of :: "(int \<Rightarrow> int \<Rightarrow> jstr) \<Rightarrow> json \<Rightarrow> error + jstr list" where
  "tags_of nts parsed =
     (case js_get parsed (asc ''tags'') of
        Some (JArr xs) \<Rightarrow> collect (map (js_String nts) xs)
      | _ \<Rightarrow> Inr [])"

text \<open>The body of \<open>if (parsed)\<close>: title, draftBody and tags, in this order.\<close>

definition from_parsed :: "(int \<Rightarrow> int \<Rightarrow> jstr) \<Rightarrow> json \<Rightarrow> error + (jstr \<times> jstr \<times> jstr list)" where
  "from_parsed nts parsed =
     (case sanitizeTitle nts (js_get parsed (asc ''title'')) of
        Inl e \<Rightarrow> Inl e
      | Inr t \<Rightarrow>
         (case js_String nts (or_empty (js_get parsed (asc ''draftBody''))) of
            Inl e \<Rightarrow> Inl e
          | Inr b \<Rightarrow>
             (case tags_of nts parsed of
                Inl e \<Rightarrow> Inl e
              | Inr g \<Rightarrow> Inr (t, trim b, g))))"

text \<open>\<open>lines.slice(1).join('\\n').trim() || (text || '')\<close>\<close>

definition derived_body :: "jstr \<Rightarrow> jstr" where
  "derived_body text =
     (let b = trim (join [10] (tl (split_lines [] text)))
      in if b = [] then text else b)"

text \<open>The body of \<open>if (!title || !draftBody)\<close>.\<close>

definition from_text :: "(int \<Rightarrow> int \<Rightarrow> jstr) \<Rightarrow> jstr \<Rightarrow> error + draft" where
  "from_text nts text =
     (case deriveTitleFromText nts text of
        Inl e \<Rightarrow> Inl e
      | Inr t \<Rightarrow> Inr \<lparr>title = t, draftBody = derived_body text, tags = []\<rparr>)"

text \<open>
  Lines 127 to 144 of \<open>main\<close>, the draft extractor: from the text of the first
  generation to title, draftBody and tags. \<open>gen\<close> is the repair call. Without a truthy
  \<open>parsed\<close> the variables \<open>title\<close> and \<open>draftBody\<close> stay \<open>undefined\<close>, which
  the test \<open>!title || !draftBody\<close> treats as the empty string. \<open>Inl\<close> is an
  exception that leaves \<open>main\<close>.
\<close>

definition extract_draft :: "(jstr \<Rightarrow> jstr) \<Rightarrow> (int \<Rightarrow> int \<Rightarrow> jstr) \<Rightarrow> jstr \<Rightarrow> error + draft" where
  "extract_draft gen nts text =
     (let parsed = parsed_of gen text
      in case (if truthy parsed then from_parsed nts parsed else Inr ([], [], [])) of
           Inl e \<Rightarrow> Inl e
         | Inr (t, b, g) \<Rightarrow>
             if t = [] \<or> b = [] then from_text nts text
             else Inr \<lparr>title = t, draftBody = b, tags = g\<rparr>)"

text \<open>The body of \<open>if (inputTags.length)\<close>.\<close>

definition merge_tags :: "jstr list \<Rightarrow> jstr list \<Rightarrow> jstr list" where
  "merge_tags tgs inputTags =
     (if inputTags \<noteq> [] then array_from_set (tgs @ inputTags) else tgs)"

text \<open>
  Lines 127 to 149 of \<open>main\<close>: the record that is written. \<open>text\<close> is the text of the
  first generation, \<open>inputTags\<close> the tags of the environment.
\<close>

definition main :: "(jstr \<Rightarrow> jstr) \<Rightarrow> (int \<Rightarrow> int \<Rightarrow> jstr) \<Rightarrow> jstr \<Rightarrow> jstr list \<Rightarrow> error + draft" where
  "main gen nts text inputTags =
     (case extract_draft gen nts text of
        Inl e \<Rightarrow> Inl e
      | Inr d \<Rightarrow> Inr (d\<lparr>tags := merge_tags (tags d) inputTags\<rparr>))"

subsection \<open>Values without U+200B\<close>







subsection \<open>Stand-ins for the parameters\<close>

text \<open>A repair call that answers the empty text, and a number printer for the whole
  numbers below ten.\<close>

definition no_repair :: "jstr \<Rightarrow> jstr" where
  "no_repair raw = []"

definition digit_nts :: "int \<Rightarrow> int \<Rightarrow> jstr" where
  "digit_nts m e = [48 + nat m]"

subsection \<open>Example texts\<close>

definition xy_text :: jstr where
  "xy_text = asc ''{\"title\":\"T\",\"draftBody\":\"B\",\"tags\":[\"x\",\"y\"]}''"

definition hello_text :: jstr where
  "hello_text =
     asc ''{\"title\":\"# Hello\",\"draftBody\":\"body text\",\"tags\":[\"a\",\"a\",\"b\"]}''"

definition fenced_text :: jstr where
  "fenced_text =
     backticks @ asc ''json'' @ [10] @
     asc ''{\"title\":\"T\",\"draftBody\":\"B\",\"tags\":[]}'' @ [10] @ backticks"

text \<open>An object between prose, a JSON string that holds a fenced block, a fenced array
  of an object, and a fenced block followed by a second one.\<close>

definition wrapped_text :: jstr where
  "wrapped_text = asc ''Here: {\"title\":\"T\",\"draftBody\":\"B\",\"tags\":[]} thanks''"

definition quoted_fence_text :: jstr where
  "quoted_fence_text = asc ''\"'' @ backticks @ asc '' {} '' @ backticks @ asc ''\"''"

definition fenced_array_text :: jstr where
  "fenced_array_text = backticks @ [10] @ asc ''[{\"a\":\"b\"}]'' @ [10] @ backticks"

definition two_fences_text :: jstr where
  "two_fences_text =
     backticks @ [10] @ asc ''[\"a\"]'' @ [10] @ backticks @ asc '' and '' @ backticks @
     asc ''x'' @ backticks"

definition prose_text :: jstr where
  "prose_text = asc ''My Great Title'' @ [10] @ asc ''Some body content''"

text \<open>Prose whose first line is empty, and prose whose first line is a code-fence
  line.\<close>

definition blank_first_text :: jstr where
  "blank_first_text = [10] @ asc ''My Title'' @ [10] @ asc ''Body''"

definition fence_first_text :: jstr where
  "fence_first_text = backticks @ [10] @ asc ''My Title'' @ [10] @ asc ''Body''"

definition padded_text :: jstr where
  "padded_text = asc ''{\"title\":\"T\",\"draftBody\":\" B \",\"tags\":[]}''"

definition empty_body_text :: jstr where
  "empty_body_text = asc ''{\"title\":\"T\",\"draftBody\":\"\",\"tags\":[\"a\"]}''"

definition bad_title_text :: jstr where
  "bad_title_text = asc ''{\"title\":{\"toString\":1},\"draftBody\":\"b\",\"tags\":[]}''"

definition string_tags_text :: jstr where
  "string_tags_text = asc ''{\"title\":\"T\",\"draftBody\":\"B\",\"tags\":\"x\"}''"




text \<open>A repair call that answers prose, and one that answers \<open>zwsp_text\<close>.\<close>

definition prose_repair :: "jstr \<Rightarrow> jstr" where
  "prose_repair raw = asc ''Sorry, I cannot do that.''"


subsection \<open>The body as the specification words it\<close>

text \<open>
  This definition follows the words of the specification, not the source: the body is
  the text that remains when the first non-empty line that is not a code-fence marker
  line is removed, and the entire text if nothing remains. It is compared with
  \<open>derived_body\<close>, which is what the source computes.
\<close>

definition spec_body :: "jstr \<Rightarrow> jstr" where
  "spec_body text =
     (let ls = split_lines [] text;
          before = takeWhile (\<lambda>l. trim l = [] \<or> is_fence_line (trim l)) ls;
          b = trim (join [10] (before @ drop (Suc (length before)) ls))
      in if b = [] then text else b)"

section \<open>Evaluation\<close>

lemmas str_defs = asc_def js_ws_def trim_def strip_zwsp_def zwsp_def slice_def backticks_def

lemmas lex_defs = json_parse_def lex_token_def json_ws_def is_digit_def value_start_def close_arr_def
  close_obj_def key_start_def lex_number_def lex_int_def lex_frac_def lex_exp_def
  digits_val_def hex4_def hexval_def unescape_def

lemmas prog_defs = prepare_def extractJsonFlexible_def try_parse_def fence_candidate_def
  slice_candidate_def fence_re_def fence_line_re_def heading_re_def group1_def after_match_def
  repairJson_def placeholder_def strip_both_def to_lower_def strip_fence_line_def
  strip_heading_def strip_quotes_def strip_json_label_def stripped_title_def clean_title_def
  title_of_def sanitizeTitle_def text_lines_def is_fence_line_def firstRealLine_def
  deriveTitleFromText_def set_add_def array_from_set_def parsed_of_def tags_of_def
  from_parsed_def derived_body_def from_text_def extract_draft_def merge_tags_def main_def
  no_repair_def

section \<open>Lemmas\<close>

subsection \<open>Trimming\<close>

lemma dropWhile_all_self: "(\<forall>x\<in>set (dropWhile P xs). P x) \<longleftrightarrow> dropWhile P xs = []"
proof
  assume a: "\<forall>x\<in>set (dropWhile P xs). P x"
  show "dropWhile P xs = []"
  proof (rule ccontr)
    assume n: "dropWhile P xs \<noteq> []"
    then have "\<not> P (hd (dropWhile P xs))" by (rule hd_dropWhile)
    moreover have "hd (dropWhile P xs) \<in> set (dropWhile P xs)" using n by simp
    ultimately show False using a by blast
  qed
next
  assume "dropWhile P xs = []"
  then show "\<forall>x\<in>set (dropWhile P xs). P x" by (simp del: dropWhile_eq_Nil_conv)
qed

lemma trim_empty_iff: "trim s = [] \<longleftrightarrow> (\<forall>c\<in>set s. js_ws c)"
proof -
  have "trim s = [] \<longleftrightarrow> (\<forall>x\<in>set (dropWhile js_ws s). js_ws x)"
    by (simp add: trim_def dropWhile_eq_Nil_conv)
  also have "\<dots> \<longleftrightarrow> dropWhile js_ws s = []" by (rule dropWhile_all_self)
  also have "\<dots> \<longleftrightarrow> (\<forall>c\<in>set s. js_ws c)" by (simp add: dropWhile_eq_Nil_conv)
  finally show ?thesis .
qed

lemma trim_Nil: "trim [] = []"
  by (simp add: trim_def)






subsection \<open>Titles and the derivation from the text\<close>

lemma placeholder_not_empty: "placeholder \<noteq> []"
  by (simp add: placeholder_def)

lemma title_of_not_empty: "title_of s \<noteq> []"
  by (simp add: title_of_def placeholder_not_empty)

lemma title_of_empty: "title_of [] = placeholder"
  by (simp add: str_defs prog_defs)

lemma sanitizeTitle_string: "sanitizeTitle nts (Some (JStr s)) = Inr (title_of s)"
  by (simp add: sanitizeTitle_def)

lemma sanitizeTitle_undefined: "sanitizeTitle nts None = Inr placeholder"
  by (simp add: sanitizeTitle_def title_of_empty)

lemma sanitizeTitle_not_empty: "sanitizeTitle nts v = Inr t \<Longrightarrow> t \<noteq> []"
  by (auto simp: sanitizeTitle_def title_of_not_empty split: sum.splits)

lemma deriveTitleFromText_eq: "deriveTitleFromText nts text = Inr (title_of (firstRealLine text))"
  by (simp add: deriveTitleFromText_def sanitizeTitle_string)

lemma from_text_eq:
  "from_text nts text =
     Inr \<lparr>title = title_of (firstRealLine text), draftBody = derived_body text, tags = []\<rparr>"
  by (simp add: from_text_def deriveTitleFromText_eq)

lemma from_parsed_non_object:
  assumes "\<And>ms. v \<noteq> JObj ms"
  shows "from_parsed nts v = Inr (placeholder, [], [])"
proof -
  have g: "\<And>k. js_get v k = None" using assms by (cases v) auto
  show ?thesis
    by (simp add: from_parsed_def g sanitizeTitle_undefined tags_of_def trim_Nil)
qed

lemma extract_non_object:
  assumes "\<And>ms. parsed_of gen text \<noteq> JObj ms"
  shows "extract_draft gen nts text = from_text nts text"
  using from_parsed_non_object[OF assms]
  by (simp add: extract_draft_def Let_def)

lemma extract_title_not_empty: "extract_draft gen nts text = Inr d \<Longrightarrow> title d \<noteq> []"
  by (auto simp: extract_draft_def Let_def from_text_eq title_of_not_empty
      split: sum.splits prod.splits if_splits)

lemma main_extract:
  "main gen nts text inputTags = Inr d \<Longrightarrow>
   \<exists>d0. extract_draft gen nts text = Inr d0 \<and> title d = title d0 \<and>
     draftBody d = draftBody d0 \<and> tags d = merge_tags (tags d0) inputTags"
  by (auto simp: main_def split: sum.splits)

lemma split_lines_not_Nil: "split_lines cur s \<noteq> []"
  by (induction cur s rule: split_lines.induct) auto

lemma spec_body_first_line:
  assumes "trim (hd (split_lines [] text)) \<noteq> []"
    and "\<not> is_fence_line (trim (hd (split_lines [] text)))"
  shows "spec_body text = derived_body text"
proof -
  obtain l ls where s: "split_lines [] text = l # ls"
    using split_lines_not_Nil [of "[]" "text"] by (cases "split_lines [] text") auto
  with assms have "takeWhile (\<lambda>l. trim l = [] \<or> is_fence_line (trim l)) (l # ls) = []"
    by simp
  then show ?thesis
    by (simp add: spec_body_def derived_body_def Let_def s)
qed

lemma find_first:
  "\<forall>x\<in>set pre. \<not> P x \<Longrightarrow> P l \<Longrightarrow> find P (pre @ l # post) = Some l"
  by (induction pre) simp_all

text \<open>The line of the title is the first of the trimmed non-empty lines that is not a
  code-fence line.\<close>

lemma firstRealLine_first_non_fence:
  assumes "text_lines text = pre @ l # post" and "\<forall>x\<in>set pre. is_fence_line x"
    and "\<not> is_fence_line l"
  shows "firstRealLine text = l"
  using assms find_first [of pre "\<lambda>l. \<not> is_fence_line l" l post]
  by (simp add: firstRealLine_def)

lemma raw_text_title:
  assumes "\<forall>ms. parsed_of gen text \<noteq> JObj ms"
    and "text_lines text = pre @ l # post" and "\<forall>x\<in>set pre. is_fence_line x"
    and "\<not> is_fence_line l"
  shows "extract_draft gen nts text =
           Inr \<lparr>title = title_of l, draftBody = derived_body text, tags = []\<rparr>"
  using assms(1) firstRealLine_first_non_fence [OF assms(2-4)]
  by (simp add: extract_non_object from_text_eq)

subsection \<open>The regular expressions and the two candidates\<close>

lemma rmatch_char:
  "rmatch (RChar c # r) s go gc = Some m \<Longrightarrow> \<exists>b. s = c # b \<and> rmatch r b go gc = Some m"
  by (cases s) (auto split: if_splits)

lemma rmatch_star:
  "rmatch (RStar k # r) s go gc = Some m \<Longrightarrow>
   \<exists>a b. s = a @ b \<and> (\<forall>x\<in>set a. in_class k x) \<and> rmatch r b go gc = Some m"
proof (induction s)
  case Nil
  then show ?case by simp
next
  case (Cons x xs)
  have skip: "rmatch r (x # xs) go gc = Some m \<Longrightarrow> ?case"
  proof -
    assume "rmatch r (x # xs) go gc = Some m"
    then have "x # xs = [] @ (x # xs) \<and> (\<forall>y\<in>set []. in_class k y) \<and>
        rmatch r (x # xs) go gc = Some m" by simp
    then show ?case by blast
  qed
  show ?case
  proof (cases "in_class k x")
    case True
    show ?thesis
    proof (cases "rmatch (RStar k # r) xs go gc")
      case None
      with True Cons.prems have "rmatch r (x # xs) go gc = Some m" by simp
      then show ?thesis by (rule skip)
    next
      case (Some m')
      with True Cons.prems have "rmatch (RStar k # r) xs go gc = Some m" by simp
      from Cons.IH [OF this] obtain a b where
        "xs = a @ b" "\<forall>x\<in>set a. in_class k x" "rmatch r b go gc = Some m" by blast
      with True have "x # xs = (x # a) @ b \<and> (\<forall>y\<in>set (x # a). in_class k y) \<and>
          rmatch r b go gc = Some m" by simp
      then show ?thesis by blast
    qed
  next
    case False
    with Cons.prems have "rmatch r (x # xs) go gc = Some m" by simp
    then show ?thesis by (rule skip)
  qed
qed

lemma rmatch_lazy_first:
  "rmatch (RLazy k # r) s go gc = Some m \<Longrightarrow>
   \<exists>a b. s = a @ b \<and> (\<forall>x\<in>set a. in_class k x) \<and> rmatch r b go gc = Some m \<and>
     (\<forall>n<length a. rmatch r (drop n s) go gc = None)"
proof (induction s)
  case Nil
  then have "rmatch r [] go gc = Some m" by simp
  then show ?case by (intro exI [of _ "[]"]) simp
next
  case (Cons x xs)
  show ?case
  proof (cases "rmatch r (x # xs) go gc")
    case (Some m')
    with Cons.prems have "rmatch r (x # xs) go gc = Some m" by simp
    then show ?thesis by (intro exI [of _ "[]"] exI [of _ "x # xs"]) simp
  next
    case None
    with Cons.prems have k: "in_class k x" and "rmatch (RLazy k # r) xs go gc = Some m"
      by (auto split: if_splits)
    from Cons.IH [OF this(2)] obtain a b where ab: "xs = a @ b" "\<forall>x\<in>set a. in_class k x"
      "rmatch r b go gc = Some m" and mn: "\<forall>n<length a. rmatch r (drop n xs) go gc = None"
      by blast
    have "rmatch r (drop n (x # xs)) go gc = None" if "n < length (x # a)" for n
    proof (cases n)
      case 0
      with None show ?thesis by simp
    next
      case (Suc j)
      with that have "j < length a" by simp
      with mn Suc show ?thesis by simp
    qed
    with k ab show ?thesis
      by (intro exI [of _ "x # a"] exI [of _ b]) simp
  qed
qed

lemma closing_fence_matches:
  "rmatch [RClose, RStar CSpace, RChar 96, RChar 96, RChar 96] (96 # 96 # 96 # r) go gc \<noteq> None"
  by (simp add: js_ws_def)

lemma re_search_sound:
  "re_search re s = Some m \<Longrightarrow> \<exists>p b. s = p @ b \<and> rmatch re b [] [] = Some m"
proof (induction s)
  case Nil
  then show ?case by simp
next
  case (Cons c cs)
  show ?case
  proof (cases "rmatch re (c # cs) [] []")
    case (Some m')
    with Cons.prems have "c # cs = [] @ (c # cs) \<and> rmatch re (c # cs) [] [] = Some m" by simp
    then show ?thesis by blast
  next
    case None
    with Cons.prems have "re_search re cs = Some m" by simp
    from Cons.IH [OF this] obtain p b where "cs = p @ b" "rmatch re b [] [] = Some m" by blast
    then have "c # cs = (c # p) @ b \<and> rmatch re b [] [] = Some m" by simp
    then show ?thesis by blast
  qed
qed

lemma no_fence_in_spaces:
  "\<forall>x\<in>set sp. js_ws x \<Longrightarrow> sp @ [96, 96] \<noteq> us @ 96 # 96 # 96 # w"
proof (induction sp arbitrary: us)
  case Nil
  show ?case
  proof
    assume "[] @ [96, 96] = us @ 96 # 96 # 96 # w"
    then have "length ([96, 96] :: jstr) = length (us @ 96 # 96 # 96 # w)" by simp
    then show False by simp
  qed
next
  case (Cons c sp)
  have nw: "\<not> js_ws 96" by (simp add: js_ws_def)
  show ?case
  proof (cases us)
    case Nil
    with Cons.prems nw show ?thesis by auto
  next
    case (Cons d us')
    with Cons.IH [of us'] Cons.prems show ?thesis by simp
  qed
qed

lemma fence_match_shape:
  assumes "re_search fence_re text = Some m"
  shows "\<exists>pre tag sp inner sp' post.
           text = pre @ backticks @ tag @ sp @ inner @ sp' @ backticks @ post \<and>
           (\<forall>x\<in>set tag. in_class CLetter x) \<and> (\<forall>x\<in>set sp. js_ws x) \<and>
           (\<forall>x\<in>set sp'. js_ws x) \<and> group1 m = inner \<and>
           (\<forall>u w. inner @ sp' @ [96, 96] \<noteq> u @ backticks @ w)"
proof -
  from re_search_sound [OF assms] obtain pre b0 where
    t: "text = pre @ b0" and m0: "rmatch fence_re b0 [] [] = Some m" by blast
  let ?r1 = "[RStar CLetter, RStar CSpace, ROpen, RLazy CAny, RClose, RStar CSpace,
      RChar 96, RChar 96, RChar 96]"
  let ?close = "[RClose, RStar CSpace, RChar 96, RChar 96, RChar 96]"
  from m0 obtain b1 where b0: "b0 = 96 # 96 # 96 # b1" and m1: "rmatch ?r1 b1 [] [] = Some m"
    unfolding fence_re_def by (blast dest: rmatch_char)
  from rmatch_star [OF m1] obtain tag b2 where
    b1: "b1 = tag @ b2" and tg: "\<forall>x\<in>set tag. in_class CLetter x"
    and m2: "rmatch (tl ?r1) b2 [] [] = Some m" by auto
  from rmatch_star [OF m2 [simplified]] obtain sp b3 where
    b2: "b2 = sp @ b3" and sp: "\<forall>x\<in>set sp. in_class CSpace x"
    and m3: "rmatch (tl (tl ?r1)) b3 [] [] = Some m" by auto
  from m3 have m3': "rmatch (RLazy CAny # ?close) b3 b3 [] = Some m" by simp
  from rmatch_lazy_first [OF m3'] obtain inner b4 where
    x: "b3 = inner @ b4 \<and> (\<forall>x\<in>set inner. in_class CAny x) \<and>
        rmatch ?close b4 b3 [] = Some m \<and>
        (\<forall>n<length inner. rmatch ?close (drop n b3) b3 [] = None)"
    by (elim exE)
  from x have b3: "b3 = inner @ b4" by (rule conjunct1)
  from x have m4: "rmatch ?close b4 b3 [] = Some m"
    by (rule conjunct1 [OF conjunct2 [OF conjunct2]])
  from x have first: "\<forall>n<length inner. rmatch ?close (drop n b3) b3 [] = None"
    by (rule conjunct2 [OF conjunct2 [OF conjunct2]])
  from m4 have m4': "rmatch (RStar CSpace # [RChar 96, RChar 96, RChar 96]) b4 b3 b4 = Some m"
    by simp
  from rmatch_star [OF m4'] obtain sp' b5 where
    b4: "b4 = sp' @ b5" and sp': "\<forall>x\<in>set sp'. in_class CSpace x"
    and m5: "rmatch [RChar 96, RChar 96, RChar 96] b5 b3 b4 = Some m" by auto
  from m5 obtain post where b5: "b5 = 96 # 96 # 96 # post" and m6: "rmatch [] post b3 b4 = Some m"
    by (blast dest: rmatch_char)
  from m6 have "m = (b3, b4, post)" by simp
  then have g: "group1 m = inner" using b3 by (simp add: group1_def)
  from sp sp' have ws: "\<forall>x\<in>set sp. js_ws x" "\<forall>x\<in>set sp'. js_ws x" by simp_all
  have none: "inner @ sp' @ [96, 96] \<noteq> u @ backticks @ w" for u w
  proof
    assume e: "inner @ sp' @ [96, 96] = u @ backticks @ w"
    then have "inner @ (sp' @ [96, 96]) = u @ (96 # 96 # 96 # w)" by (simp add: backticks_def)
    then obtain us where "(inner = u @ us \<and> us @ sp' @ [96, 96] = 96 # 96 # 96 # w) \<or>
        (inner @ us = u \<and> sp' @ [96, 96] = us @ 96 # 96 # 96 # w)"
      unfolding append_eq_append_conv2 by blast
    then show False
    proof
      assume a: "inner = u @ us \<and> us @ sp' @ [96, 96] = 96 # 96 # 96 # w"
      show False
      proof (cases us)
        case Nil
        with a have "sp' @ [96, 96] = [] @ 96 # 96 # 96 # w" by simp
        with no_fence_in_spaces [OF ws(2)] show False by blast
      next
        case (Cons c cs)
        with a have lt: "length u < length inner" by simp
        have "drop (length u) b3 = us @ sp' @ 96 # 96 # 96 # post"
          using a b3 b4 b5 by simp
        also have "\<dots> = (us @ sp' @ [96, 96]) @ 96 # post" by simp
        also have "\<dots> = 96 # 96 # 96 # (w @ 96 # post)" using a by simp
        finally have d: "drop (length u) b3 = 96 # 96 # 96 # (w @ 96 # post)" .
        have "rmatch ?close (drop (length u) b3) b3 [] \<noteq> None"
          unfolding d by (rule closing_fence_matches)
        moreover from first lt have "rmatch ?close (drop (length u) b3) b3 [] = None"
          by blast
        ultimately show False by blast
      qed
    next
      assume "inner @ us = u \<and> sp' @ [96, 96] = us @ 96 # 96 # 96 # w"
      with no_fence_in_spaces [OF ws(2)] show False by blast
    qed
  qed
  have "text = pre @ backticks @ tag @ sp @ inner @ sp' @ backticks @ post"
    using t b0 b1 b2 b3 b4 b5 by (simp add: backticks_def)
  then have "text = pre @ backticks @ tag @ sp @ inner @ sp' @ backticks @ post \<and>
           (\<forall>x\<in>set tag. in_class CLetter x) \<and> (\<forall>x\<in>set sp. js_ws x) \<and>
           (\<forall>x\<in>set sp'. js_ws x) \<and> group1 m = inner \<and>
           (\<forall>u w. inner @ sp' @ [96, 96] \<noteq> u @ backticks @ w)"
    using tg ws g none by (intro conjI allI) assumption+
  then show ?thesis by (intro exI)
qed

lemma indexOf_Some:
  "indexOf c s = Some i \<Longrightarrow> i < length s \<and> s ! i = c \<and> c \<notin> set (take i s)"
proof (induction s arbitrary: i)
  case Nil
  then show ?case by simp
next
  case (Cons x xs)
  show ?case
  proof (cases "x = c")
    case True
    with Cons.prems show ?thesis by simp
  next
    case False
    with Cons.prems obtain j where j: "indexOf c xs = Some j" "i = Suc j" by auto
    from Cons.IH [OF j(1)] j(2) False show ?thesis by simp
  qed
qed

lemma lastIndexOf_Some:
  "lastIndexOf c s = Some i \<Longrightarrow> i < length s \<and> s ! i = c \<and> c \<notin> set (drop (Suc i) s)"
proof (induction s arbitrary: i)
  case Nil
  then show ?case by simp
next
  case (Cons x xs)
  show ?case
  proof (cases "lastIndexOf c xs")
    case None
    with Cons.prems have i: "i = 0" "x = c" by (auto split: if_splits)
    have "c \<notin> set xs"
    proof
      assume "c \<in> set xs"
      then have "lastIndexOf c xs \<noteq> None"
        by (induction xs) (auto split: option.splits)
      with None show False by simp
    qed
    with i show ?thesis by simp
  next
    case (Some j)
    with Cons.prems have "i = Suc j" by simp
    with Cons.IH [OF Some] show ?thesis by simp
  qed
qed

lemma slice_candidate_shape:
  assumes "slice_candidate text = Some c"
  shows "\<exists>p q. text = p @ c @ q \<and> 123 \<notin> set p \<and> 125 \<notin> set q \<and> c \<noteq> [] \<and>
           hd c = 123 \<and> last c = 125"
proof -
  from assms obtain f l where f: "indexOf 123 text = Some f" and l: "lastIndexOf 125 text = Some l"
    and fl: "f < l" and c: "c = slice text f (l + 1)"
    by (auto simp: slice_candidate_def split: option.splits if_splits)
  from indexOf_Some [OF f] have f1: "f < length text" "text ! f = 123" "123 \<notin> set (take f text)"
    by simp_all
  from lastIndexOf_Some [OF l] have l1: "l < length text" "text ! l = 125"
    "125 \<notin> set (drop (Suc l) text)" by simp_all
  have c': "c = take (Suc l - f) (drop f text)" using c by (simp add: slice_def)
  have "drop f text = c @ drop (Suc l - f) (drop f text)"
    by (simp only: c' append_take_drop_id)
  moreover have "drop (Suc l - f) (drop f text) = drop (Suc l) text" using fl by simp
  ultimately have "text = take f text @ c @ drop (Suc l) text"
    by (metis append_take_drop_id)
  moreover have "hd c = 123"
    using c' f1 fl by (simp add: hd_drop_conv_nth)
  moreover have len: "length c = Suc l - f" using c' l1 fl by simp
  then have ne: "c \<noteq> []" using fl by auto
  moreover have "last c = 125"
  proof -
    from ne have "last c = c ! (l - f)" using len by (simp add: last_conv_nth)
    also have "\<dots> = text ! l" using c' fl l1 by simp
    finally show ?thesis using l1 by simp
  qed
  ultimately show ?thesis using f1 l1 by blast
qed

lemma lastIndexOf_None: "c \<notin> set q \<Longrightarrow> lastIndexOf c q = None"
  by (induction q) auto

lemma indexOf_first: "c \<notin> set p \<Longrightarrow> indexOf c (p @ c # r) = Some (length p)"
  by (induction p) auto

lemma lastIndexOf_last: "c \<notin> set q \<Longrightarrow> lastIndexOf c (r @ c # q) = Some (length r)"
  by (induction r) (simp_all add: lastIndexOf_None)

lemma slice_candidate_complete:
  assumes "text = p @ c @ q" and "123 \<notin> set p" and "125 \<notin> set q"
    and "c \<noteq> []" and "hd c = 123" and "last c = 125"
  shows "slice_candidate text = Some c"
proof -
  from assms(4,5) obtain c' where c: "c = 123 # c'" by (cases c) auto
  have c2: "butlast c @ [125] = c" using append_butlast_last_id [OF assms(4)] assms(6) by simp
  have "c' \<noteq> []" using c assms(6) by auto
  then have len: "2 \<le> length c" using c by (cases c') auto
  have "text = p @ 123 # (c' @ q)" using assms(1) c by simp
  then have f: "indexOf 123 text = Some (length p)"
    using indexOf_first [OF assms(2), of "c' @ q"] by simp
  have "(p @ butlast c) @ 125 # q = p @ (butlast c @ [125]) @ q" by simp
  also have "\<dots> = text" using assms(1) by (simp only: c2)
  finally have t2: "text = (p @ butlast c) @ 125 # q" by simp
  have l: "lastIndexOf 125 text = Some (length p + length c - 1)"
  proof -
    have "lastIndexOf 125 ((p @ butlast c) @ 125 # q) = Some (length (p @ butlast c))"
      by (rule lastIndexOf_last [OF assms(3)])
    moreover have "length (p @ butlast c) = length p + length c - 1" using len by simp
    ultimately show ?thesis by (simp only: t2 [symmetric])
  qed
  have "slice text (length p) (length p + length c - 1 + 1) = c"
    using assms(1) len by (simp add: slice_def)
  with f l len show ?thesis by (simp add: slice_candidate_def)
qed


subsection \<open>U+200B in the parsed value\<close>































lemma from_parsed_strings:
  assumes "js_get v (asc ''title'') = Some (JStr t)"
    and "js_get v (asc ''draftBody'') = Some (JStr b)"
    and "js_get v (asc ''tags'') = Some (JArr xs)"
    and "collect (map (js_String nts) xs) = Inr g"
  shows "from_parsed nts v = Inr (title_of t, trim b, g)"
  using assms by (simp add: from_parsed_def sanitizeTitle_def tags_of_def)

subsection \<open>Sets of tags\<close>

lemma set_foldl_set_add: "set (foldl set_add acc xs) = set acc \<union> set xs"
  by (induction xs arbitrary: acc) (auto simp: set_add_def)

lemma distinct_foldl_set_add: "distinct acc \<Longrightarrow> distinct (foldl set_add acc xs)"
  by (induction xs arbitrary: acc) (auto simp: set_add_def)

lemma set_array_from_set: "set (array_from_set xs) = set xs"
  by (simp add: array_from_set_def set_foldl_set_add)

lemma distinct_array_from_set: "distinct (array_from_set xs)"
  by (simp add: array_from_set_def distinct_foldl_set_add)

subsection \<open>The example texts, evaluated\<close>

lemma extract_xy_text:
  "extract_draft gen nts xy_text =
     Inr \<lparr>title = asc ''T'', draftBody = asc ''B'', tags = [asc ''x'', asc ''y'']\<rparr>"
  by (simp add: xy_text_def str_defs lex_defs prog_defs)

lemma main_hello_text:
  "main gen nts hello_text [] =
     Inr \<lparr>title = asc ''Hello'', draftBody = asc ''body text'', tags = [asc ''a'', asc ''a'', asc ''b'']\<rparr>"
  by (simp add: hello_text_def str_defs lex_defs prog_defs)

lemma direct_parse_fenced_text:
  "json_parse (prepare fenced_text) = None"
  by (simp add: fenced_text_def str_defs lex_defs prog_defs)

lemma fence_candidate_fenced_text:
  "fence_candidate (prepare fenced_text) =
     Some (asc ''{\"title\":\"T\",\"draftBody\":\"B\",\"tags\":[]}'')"
  by (simp add: fenced_text_def str_defs prog_defs)

lemma extract_fenced_text:
  "extract_draft gen nts fenced_text =
     Inr \<lparr>title = asc ''T'', draftBody = asc ''B'', tags = []\<rparr>"
  by (simp add: fenced_text_def str_defs lex_defs prog_defs)

lemma parsed_of_prose_text:
  "parsed_of no_repair prose_text = JNull"
  by (simp add: prose_text_def str_defs lex_defs prog_defs)

lemma title_prose_text:
  "title_of (firstRealLine prose_text) = asc ''My Great Title''"
  by (simp add: prose_text_def str_defs prog_defs)

lemma derived_body_prose_text:
  "derived_body prose_text = asc ''Some body content''"
  by (simp add: prose_text_def str_defs prog_defs)

lemma extract_blank_first_text:
  "extract_draft no_repair nts blank_first_text =
     Inr \<lparr>title = asc ''My Title'', draftBody = asc ''My Title'' @ [10] @ asc ''Body'', tags = []\<rparr>"
  by (simp add: blank_first_text_def str_defs lex_defs prog_defs)

lemma spec_body_blank_first_text:
  "spec_body blank_first_text = asc ''Body''"
  by (simp add: blank_first_text_def spec_body_def Let_def str_defs prog_defs)

lemma extract_padded_text:
  "extract_draft gen nts padded_text =
     Inr \<lparr>title = asc ''T'', draftBody = asc ''B'', tags = []\<rparr>"
  by (simp add: padded_text_def str_defs lex_defs prog_defs)

lemma extract_empty_body_text:
  "extract_draft gen nts empty_body_text =
     Inr \<lparr>title = empty_body_text, draftBody = empty_body_text, tags = []\<rparr>"
  by (simp add: empty_body_text_def str_defs lex_defs prog_defs)

lemma extract_bad_title_text:
  "extract_draft gen nts bad_title_text = Inl TypeError"
  by (simp add: bad_title_text_def str_defs lex_defs prog_defs)

lemma parsed_of_string_tags_text:
  "parsed_of gen string_tags_text =
     JObj [(asc ''title'', JStr (asc ''T'')), (asc ''draftBody'', JStr (asc ''B'')), (asc ''tags'', JStr (asc ''x''))]"
  by (simp add: string_tags_text_def str_defs lex_defs prog_defs)


lemma extract_fence_first_text:
  "extract_draft no_repair nts fence_first_text =
     Inr \<lparr>title = asc ''My Title'', draftBody = asc ''My Title'' @ [10] @ asc ''Body'',
          tags = []\<rparr>"
  by (simp add: fence_first_text_def str_defs lex_defs prog_defs)

lemma spec_body_fence_first_text:
  "spec_body fence_first_text = backticks @ [10] @ asc ''Body''"
  by (simp add: fence_first_text_def spec_body_def Let_def str_defs prog_defs)

lemma extract_prose_text:
  "extract_draft no_repair nts prose_text =
     Inr \<lparr>title = asc ''My Great Title'', draftBody = asc ''Some body content'', tags = []\<rparr>"
  by (simp add: prose_text_def str_defs lex_defs prog_defs)

lemma spec_body_prose_text:
  "spec_body prose_text = asc ''Some body content''"
  by (simp add: prose_text_def spec_body_def Let_def str_defs prog_defs)

lemma direct_parse_wrapped_text:
  "json_parse (prepare wrapped_text) = None"
  by (simp add: wrapped_text_def str_defs lex_defs prog_defs)

lemma fence_candidate_wrapped_text:
  "fence_candidate (prepare wrapped_text) = None"
  by (simp add: wrapped_text_def str_defs prog_defs)

lemma slice_candidate_wrapped_text:
  "slice_candidate (prepare wrapped_text) =
     Some (asc ''{\"title\":\"T\",\"draftBody\":\"B\",\"tags\":[]}'')"
  by (simp add: wrapped_text_def str_defs prog_defs)

lemma extractJsonFlexible_wrapped_text:
  "extractJsonFlexible wrapped_text =
     JObj [(asc ''title'', JStr (asc ''T'')), (asc ''draftBody'', JStr (asc ''B'')),
           (asc ''tags'', JArr [])]"
  by (simp add: wrapped_text_def str_defs lex_defs prog_defs)

lemma extract_wrapped_text:
  "extract_draft gen nts wrapped_text =
     Inr \<lparr>title = asc ''T'', draftBody = asc ''B'', tags = []\<rparr>"
  by (simp add: wrapped_text_def str_defs lex_defs prog_defs)

lemma quoted_fence_text_strategies:
  "extractJsonFlexible quoted_fence_text = JStr (backticks @ asc '' {} '' @ backticks) \<and>
   try_parse (fence_candidate (prepare quoted_fence_text)) = Some (JObj []) \<and>
   try_parse (slice_candidate (prepare quoted_fence_text)) = Some (JObj [])"
  by (simp add: quoted_fence_text_def str_defs lex_defs prog_defs)

lemma fenced_array_text_strategies:
  "extractJsonFlexible fenced_array_text = JArr [JObj [(asc ''a'', JStr (asc ''b''))]] \<and>
   json_parse (prepare fenced_array_text) = None \<and>
   try_parse (slice_candidate (prepare fenced_array_text)) =
     Some (JObj [(asc ''a'', JStr (asc ''b''))])"
  by (simp add: fenced_array_text_def str_defs lex_defs prog_defs)

lemma two_fences_text_strategies:
  "fence_candidate (prepare two_fences_text) = Some (asc ''[\"a\"]'') \<and>
   extractJsonFlexible two_fences_text = JArr [JStr (asc ''a'')]"
  by (simp add: two_fences_text_def str_defs lex_defs prog_defs)

lemma direct_parse_xy_text:
  "json_parse (prepare xy_text) =
     Some (JObj [(asc ''title'', JStr (asc ''T'')), (asc ''draftBody'', JStr (asc ''B'')),
                 (asc ''tags'', JArr [JStr (asc ''x''), JStr (asc ''y'')])])"
  by (simp add: xy_text_def str_defs lex_defs prog_defs)





section \<open>The claims\<close>

subsection \<open>C1: the record of a parsed object\<close>

text \<open>
  C1, as stated, fails. The text \<open>padded_text\<close> parses directly to an object of the
  expected shape whose draftBody is \<open>" B "\<close>, and the record has the draftBody
  \<open>"B"\<close>: the value is trimmed. The text \<open>empty_body_text\<close> parses directly to an
  object of the expected shape whose draftBody is empty, and the record is derived from
  the raw text all the same: its title and its draftBody are the raw text, its tags are
  empty.
\<close>

theorem object_is_not_always_copied_counterexample:
  "json_parse padded_text =
     Some (JObj [(asc ''title'', JStr (asc ''T'')), (asc ''draftBody'', JStr (asc '' B '')),
                 (asc ''tags'', JArr [])]) \<and>
   extract_draft no_repair digit_nts padded_text =
     Inr \<lparr>title = asc ''T'', draftBody = asc ''B'', tags = []\<rparr> \<and>
   asc ''B'' \<noteq> asc '' B '' \<and>
   json_parse empty_body_text =
     Some (JObj [(asc ''title'', JStr (asc ''T'')), (asc ''draftBody'', JStr []),
                 (asc ''tags'', JArr [JStr (asc ''a'')])]) \<and>
   extract_draft no_repair digit_nts empty_body_text =
     Inr \<lparr>title = empty_body_text, draftBody = empty_body_text, tags = []\<rparr> \<and>
   empty_body_text \<noteq> asc ''T'' \<and> empty_body_text \<noteq> []"
proof -
  have 1: "json_parse padded_text =
     Some (JObj [(asc ''title'', JStr (asc ''T'')), (asc ''draftBody'', JStr (asc '' B '')),
                 (asc ''tags'', JArr [])])"
    by (simp add: padded_text_def str_defs lex_defs)
  have 2: "json_parse empty_body_text =
     Some (JObj [(asc ''title'', JStr (asc ''T'')), (asc ''draftBody'', JStr []),
                 (asc ''tags'', JArr [JStr (asc ''a'')])])"
    by (simp add: empty_body_text_def str_defs lex_defs)
  have 3: "asc ''B'' \<noteq> asc '' B ''" by (simp add: asc_def)
  have 4: "empty_body_text \<noteq> asc ''T'' \<and> empty_body_text \<noteq> []"
    by (simp add: empty_body_text_def asc_def)
  from 1 2 3 4 extract_padded_text [of no_repair digit_nts]
    extract_empty_body_text [of no_repair digit_nts]
  show ?thesis by blast
qed

text \<open>
  C1, amended. When the fallback chain (the three strategies on the text, then the
  repair call) ends with an object whose title and draftBody are strings and whose tags
  are an array of values that \<open>String\<close> converts, and the draftBody is not blank, the
  record has the sanitized title, the trimmed draftBody and the converted tags. The
  record is derived from the raw text when the draftBody of the object is blank, and
  when the chain ends with no object.
\<close>

theorem parsed_object_gives_record:
  "(parsed_of gen text = JObj ms \<longrightarrow>
    js_get (JObj ms) (asc ''title'') = Some (JStr t) \<longrightarrow>
    js_get (JObj ms) (asc ''draftBody'') = Some (JStr b) \<longrightarrow>
    js_get (JObj ms) (asc ''tags'') = Some (JArr xs) \<longrightarrow>
    collect (map (js_String nts) xs) = Inr g \<longrightarrow>
      extract_draft gen nts text =
        (if trim b = [] then from_text nts text
         else Inr \<lparr>title = title_of t, draftBody = trim b, tags = g\<rparr>)) \<and>
   ((\<forall>ms. parsed_of gen text \<noteq> JObj ms) \<longrightarrow> extract_draft gen nts text = from_text nts text)"
proof (intro conjI impI)
  assume p: "parsed_of gen text = JObj ms"
    and "js_get (JObj ms) (asc ''title'') = Some (JStr t)"
    and "js_get (JObj ms) (asc ''draftBody'') = Some (JStr b)"
    and "js_get (JObj ms) (asc ''tags'') = Some (JArr xs)"
    and "collect (map (js_String nts) xs) = Inr g"
  then have "from_parsed nts (JObj ms) = Inr (title_of t, trim b, g)"
    by (simp add: from_parsed_strings)
  then show "extract_draft gen nts text =
        (if trim b = [] then from_text nts text
         else Inr \<lparr>title = title_of t, draftBody = trim b, tags = g\<rparr>)"
    using p by (simp add: extract_draft_def Let_def title_of_not_empty)
next
  assume "\<forall>ms. parsed_of gen text \<noteq> JObj ms"
  then show "extract_draft gen nts text = from_text nts text"
    by (simp add: extract_non_object)
qed

theorem parsed_object_gives_record_witness:
  "parsed_of no_repair xy_text =
     JObj [(asc ''title'', JStr (asc ''T'')), (asc ''draftBody'', JStr (asc ''B'')),
           (asc ''tags'', JArr [JStr (asc ''x''), JStr (asc ''y'')])] \<and>
   collect (map (js_String digit_nts) [JStr (asc ''x''), JStr (asc ''y'')]) =
     Inr [asc ''x'', asc ''y''] \<and>
   trim (asc ''B'') = asc ''B'' \<and> title_of (asc ''T'') = asc ''T'' \<and>
   extract_draft no_repair digit_nts xy_text =
     Inr \<lparr>title = title_of (asc ''T''), draftBody = trim (asc ''B''),
          tags = [asc ''x'', asc ''y'']\<rparr>"
proof -
  let ?xs = "[JStr (asc ''x''), JStr (asc ''y'')]"
  let ?ms = "[(asc ''title'', JStr (asc ''T'')), (asc ''draftBody'', JStr (asc ''B'')),
           (asc ''tags'', JArr ?xs)]"
  have p: "parsed_of no_repair xy_text = JObj ?ms"
    by (simp add: xy_text_def str_defs lex_defs prog_defs)
  have t: "js_get (JObj ?ms) (asc ''title'') = Some (JStr (asc ''T''))"
    by (simp add: asc_def)
  have b: "js_get (JObj ?ms) (asc ''draftBody'') = Some (JStr (asc ''B''))"
    by (simp add: asc_def)
  have g: "js_get (JObj ?ms) (asc ''tags'') = Some (JArr ?xs)"
    by (simp add: asc_def)
  have c: "collect (map (js_String digit_nts) ?xs) = Inr [asc ''x'', asc ''y'']"
    by simp
  have n: "trim (asc ''B'') = asc ''B''" by (simp add: str_defs)
  have k: "title_of (asc ''T'') = asc ''T''" by (simp add: str_defs prog_defs)
  have e: "asc ''B'' \<noteq> []" by (simp add: asc_def)
  have "parsed_of no_repair xy_text = JObj ?ms \<longrightarrow>
    js_get (JObj ?ms) (asc ''title'') = Some (JStr (asc ''T'')) \<longrightarrow>
    js_get (JObj ?ms) (asc ''draftBody'') = Some (JStr (asc ''B'')) \<longrightarrow>
    js_get (JObj ?ms) (asc ''tags'') = Some (JArr ?xs) \<longrightarrow>
    collect (map (js_String digit_nts) ?xs) = Inr [asc ''x'', asc ''y''] \<longrightarrow>
      extract_draft no_repair digit_nts xy_text =
        (if trim (asc ''B'') = [] then from_text digit_nts xy_text
         else Inr \<lparr>title = title_of (asc ''T''), draftBody = trim (asc ''B''),
                  tags = [asc ''x'', asc ''y'']\<rparr>)"
    by (rule conjunct1 [OF parsed_object_gives_record])
  with p t b g c have "extract_draft no_repair digit_nts xy_text =
        (if trim (asc ''B'') = [] then from_text digit_nts xy_text
         else Inr \<lparr>title = title_of (asc ''T''), draftBody = trim (asc ''B''),
                  tags = [asc ''x'', asc ''y'']\<rparr>)"
    by blast
  with n e have "extract_draft no_repair digit_nts xy_text =
     Inr \<lparr>title = title_of (asc ''T''), draftBody = trim (asc ''B''),
          tags = [asc ''x'', asc ''y'']\<rparr>"
    by simp
  with p c n k show ?thesis by blast
qed

subsection \<open>C2: exceptions\<close>

text \<open>
  C2. The extractor should return a record for every text and never raise. On
  \<open>bad_title_text\<close>, an object whose title is an object with a member
  \<open>toString\<close>, \<open>String(parsed.title)\<close> throws a TypeError: the extractor, and
  \<open>main\<close> with it, ends with the exception, whatever the repair call answers.
\<close>

theorem toString_member_raises_TypeError:
  "extract_draft gen nts bad_title_text = Inl TypeError \<and>
   main gen nts bad_title_text inputTags = Inl TypeError"
  by (simp add: main_def extract_bad_title_text)

subsection \<open>C3: the title is never empty\<close>

text \<open>
  C3. The title of every record that \<open>main\<close> returns is not empty; and whenever the
  replacements of \<open>sanitizeTitle\<close> leave an empty string or nothing but white space,
  \<open>sanitizeTitle\<close> returns the placeholder.
\<close>

theorem title_never_empty:
  "(main gen nts text inputTags = Inr d \<longrightarrow> title d \<noteq> []) \<and>
   (js_String nts (or_empty v) = Inr s \<longrightarrow> (\<forall>c\<in>set (stripped_title s). js_ws c) \<longrightarrow>
      sanitizeTitle nts v = Inr placeholder) \<and>
   (sanitizeTitle nts v = Inr t \<longrightarrow> t \<noteq> [])"
proof (intro conjI impI)
  assume "main gen nts text inputTags = Inr d"
  then obtain d0 where "extract_draft gen nts text = Inr d0" "title d = title d0"
    using main_extract by blast
  then show "title d \<noteq> []" using extract_title_not_empty by simp
next
  assume "js_String nts (or_empty v) = Inr s" and "\<forall>c\<in>set (stripped_title s). js_ws c"
  then show "sanitizeTitle nts v = Inr placeholder"
    by (simp add: sanitizeTitle_def title_of_def clean_title_def trim_empty_iff)
next
  assume "sanitizeTitle nts v = Inr t"
  then show "t \<noteq> []" by (rule sanitizeTitle_not_empty)
qed

theorem title_never_empty_witness:
  "main no_repair digit_nts [] [] = Inr \<lparr>title = placeholder, draftBody = [], tags = []\<rparr> \<and>
   title \<lparr>title = placeholder, draftBody = [], tags = []\<rparr> \<noteq> [] \<and>
   js_String digit_nts (or_empty (Some (JStr (asc ''# \" \"'')))) = Inr (asc ''# \" \"'') \<and>
   stripped_title (asc ''# \" \"'') = [32] \<and> js_ws 32 \<and>
   sanitizeTitle digit_nts (Some (JStr (asc ''# \" \"''))) = Inr placeholder"
proof -
  let ?d = "\<lparr>title = placeholder, draftBody = [], tags = []\<rparr>"
  let ?s = "asc ''# \" \"''"
  have m: "main no_repair digit_nts [] [] = Inr ?d"
    by (simp add: str_defs lex_defs prog_defs)
  have s: "js_String digit_nts (or_empty (Some (JStr ?s))) = Inr ?s"
    by simp
  have e: "stripped_title ?s = [32]"
    by (simp add: str_defs prog_defs)
  have k: "js_ws 32" by (simp add: js_ws_def)
  from e k have w: "\<forall>c\<in>set (stripped_title ?s). js_ws c" by simp
  note th = title_never_empty [of no_repair digit_nts "[]" "[]" ?d "Some (JStr ?s)" ?s placeholder]
  from th have "main no_repair digit_nts [] [] = Inr ?d \<longrightarrow> title ?d \<noteq> []"
    by (rule conjunct1)
  with m have 1: "title ?d \<noteq> []" by (rule rev_mp)
  from th have "js_String digit_nts (or_empty (Some (JStr ?s))) = Inr ?s \<longrightarrow>
      (\<forall>c\<in>set (stripped_title ?s). js_ws c) \<longrightarrow>
      sanitizeTitle digit_nts (Some (JStr ?s)) = Inr placeholder"
    by (rule conjunct1 [OF conjunct2])
  with s w have 2: "sanitizeTitle digit_nts (Some (JStr ?s)) = Inr placeholder" by blast
  from m 1 s e k 2 show ?thesis by blast
qed

subsection \<open>C4: the derivation from the raw text\<close>

text \<open>
  C4. When no JSON object is obtained, the title is taken from the first trimmed
  non-empty line of the text that is not a code-fence line, and the draftBody should be
  the text that remains when that line is removed. The program takes the draftBody from
  the lines after the first line of the text, whichever line gave the title. On
  \<open>blank_first_text\<close> (an empty line, then \<open>My Title\<close>, then \<open>Body\<close>) and on
  \<open>fence_first_text\<close> (a line of three backticks, then the same two lines) no strategy
  and no repair gives a JSON value, the title is \<open>My Title\<close>, and the draftBody is
  \<open>My Title\<close>, a line feed and \<open>Body\<close>: it still holds the line of the title. The
  text that remains when the line of the title is removed, \<open>spec_body\<close>, is \<open>Body\<close>
  for the first text, and the line of three backticks, a line feed and \<open>Body\<close> for the
  second. On the example of the claim, whose first line is the line of the title, the
  program and the specification agree.
\<close>

theorem body_keeps_title_line:
  "extract_draft no_repair digit_nts blank_first_text =
     Inr \<lparr>title = asc ''My Title'', draftBody = asc ''My Title'' @ [10] @ asc ''Body'',
          tags = []\<rparr> \<and>
   spec_body blank_first_text = asc ''Body'' \<and>
   extract_draft no_repair digit_nts fence_first_text =
     Inr \<lparr>title = asc ''My Title'', draftBody = asc ''My Title'' @ [10] @ asc ''Body'',
          tags = []\<rparr> \<and>
   spec_body fence_first_text = backticks @ [10] @ asc ''Body'' \<and>
   asc ''My Title'' @ [10] @ asc ''Body'' \<noteq> asc ''Body'' \<and>
   asc ''My Title'' @ [10] @ asc ''Body'' \<noteq> backticks @ [10] @ asc ''Body'' \<and>
   extract_draft no_repair digit_nts prose_text =
     Inr \<lparr>title = asc ''My Great Title'', draftBody = asc ''Some body content'',
          tags = []\<rparr> \<and>
   spec_body prose_text = asc ''Some body content''"
proof -
  have "asc ''My Title'' @ [10] @ asc ''Body'' \<noteq> asc ''Body''"
    and "asc ''My Title'' @ [10] @ asc ''Body'' \<noteq> backticks @ [10] @ asc ''Body''"
    by (simp_all add: asc_def backticks_def)
  with extract_blank_first_text [of digit_nts] spec_body_blank_first_text
    extract_fence_first_text [of digit_nts] spec_body_fence_first_text
    extract_prose_text [of digit_nts] spec_body_prose_text
  show ?thesis by (intro conjI)
qed

subsection \<open>C5: the order of the strategies\<close>

text \<open>
  C5. \<open>extractJsonFlexible\<close> returns the value of the direct parse when it succeeds;
  when it fails, the value parsed from the content of the fenced block when there is
  one; when that fails too, the value parsed from the first \<open>{\<close> to the last \<open>}\<close>;
  and \<open>null\<close> when all three fail. The candidate of the second strategy is the
  trimmed, non-empty content of a block between two runs of three backticks, after an
  optional tag of letters, and the closing run is the first run of three backticks after
  the start of the content. The candidate of the third strategy exists exactly when the
  text has a \<open>{\<close> and, after it, a \<open>}\<close>, and it is the part of the text from the first
  \<open>{\<close> to the last \<open>}\<close>. The fenced example of the claim gives the title \<open>T\<close>, the
  draftBody \<open>B\<close> and no tags. On \<open>wrapped_text\<close>, an object between prose, the direct
  parse fails, there is no fence, and the slice gives the object. On
  \<open>quoted_fence_text\<close>, a JSON string that holds a fenced \<open>{}\<close>, the result is the
  string of the direct parse, though the fence and the slice would both give an object.
  On \<open>fenced_array_text\<close>, a fenced array of one object, the result is the array of
  the fence, though the slice would give the object. On \<open>two_fences_text\<close> the content
  ends at the first closing fence.
\<close>

theorem strategies_in_fixed_order:
  "(json_parse (prepare raw) = Some v \<longrightarrow> extractJsonFlexible raw = v) \<and>
   (json_parse (prepare raw) = None \<longrightarrow>
      try_parse (fence_candidate (prepare raw)) = Some v \<longrightarrow> extractJsonFlexible raw = v) \<and>
   (json_parse (prepare raw) = None \<longrightarrow>
      try_parse (fence_candidate (prepare raw)) = None \<longrightarrow>
      try_parse (slice_candidate (prepare raw)) = Some v \<longrightarrow> extractJsonFlexible raw = v) \<and>
   (json_parse (prepare raw) = None \<longrightarrow>
      try_parse (fence_candidate (prepare raw)) = None \<longrightarrow>
      try_parse (slice_candidate (prepare raw)) = None \<longrightarrow> extractJsonFlexible raw = JNull) \<and>
   (fence_candidate (prepare raw) = Some c \<longrightarrow>
      (\<exists>pre tag sp inner sp' post.
         prepare raw = pre @ backticks @ tag @ sp @ inner @ sp' @ backticks @ post \<and>
         (\<forall>x\<in>set tag. in_class CLetter x) \<and> (\<forall>x\<in>set sp. js_ws x) \<and>
         (\<forall>x\<in>set sp'. js_ws x) \<and> inner \<noteq> [] \<and> c = trim inner \<and>
         (\<forall>u w. inner @ sp' @ [96, 96] \<noteq> u @ backticks @ w))) \<and>
   (slice_candidate (prepare raw) = Some c \<longleftrightarrow>
      (\<exists>p q. prepare raw = p @ c @ q \<and> 123 \<notin> set p \<and> 125 \<notin> set q \<and> c \<noteq> [] \<and>
         hd c = 123 \<and> last c = 125)) \<and>
   extract_draft gen nts fenced_text =
     Inr \<lparr>title = asc ''T'', draftBody = asc ''B'', tags = []\<rparr> \<and>
   json_parse (prepare wrapped_text) = None \<and>
   fence_candidate (prepare wrapped_text) = None \<and>
   extractJsonFlexible wrapped_text =
     JObj [(asc ''title'', JStr (asc ''T'')), (asc ''draftBody'', JStr (asc ''B'')),
           (asc ''tags'', JArr [])] \<and>
   extractJsonFlexible quoted_fence_text = JStr (backticks @ asc '' {} '' @ backticks) \<and>
   try_parse (fence_candidate (prepare quoted_fence_text)) = Some (JObj []) \<and>
   try_parse (slice_candidate (prepare quoted_fence_text)) = Some (JObj []) \<and>
   extractJsonFlexible fenced_array_text = JArr [JObj [(asc ''a'', JStr (asc ''b''))]] \<and>
   try_parse (slice_candidate (prepare fenced_array_text)) =
     Some (JObj [(asc ''a'', JStr (asc ''b''))]) \<and>
   fence_candidate (prepare two_fences_text) = Some (asc ''[\"a\"]'') \<and>
   extractJsonFlexible two_fences_text = JArr [JStr (asc ''a'')]"
proof -
  have order: "(json_parse (prepare raw) = Some v \<longrightarrow> extractJsonFlexible raw = v) \<and>
   (json_parse (prepare raw) = None \<longrightarrow>
      try_parse (fence_candidate (prepare raw)) = Some v \<longrightarrow> extractJsonFlexible raw = v) \<and>
   (json_parse (prepare raw) = None \<longrightarrow>
      try_parse (fence_candidate (prepare raw)) = None \<longrightarrow>
      try_parse (slice_candidate (prepare raw)) = Some v \<longrightarrow> extractJsonFlexible raw = v) \<and>
   (json_parse (prepare raw) = None \<longrightarrow>
      try_parse (fence_candidate (prepare raw)) = None \<longrightarrow>
      try_parse (slice_candidate (prepare raw)) = None \<longrightarrow> extractJsonFlexible raw = JNull)"
    by (simp add: extractJsonFlexible_def Let_def)
  have fence: "fence_candidate (prepare raw) = Some c \<longrightarrow>
      (\<exists>pre tag sp inner sp' post.
         prepare raw = pre @ backticks @ tag @ sp @ inner @ sp' @ backticks @ post \<and>
         (\<forall>x\<in>set tag. in_class CLetter x) \<and> (\<forall>x\<in>set sp. js_ws x) \<and>
         (\<forall>x\<in>set sp'. js_ws x) \<and> inner \<noteq> [] \<and> c = trim inner \<and>
         (\<forall>u w. inner @ sp' @ [96, 96] \<noteq> u @ backticks @ w))"
  proof
    assume "fence_candidate (prepare raw) = Some c"
    then obtain m where m: "re_search fence_re (prepare raw) = Some m"
      and n: "group1 m \<noteq> []" and c: "c = trim (group1 m)"
      by (auto simp: fence_candidate_def split: option.splits if_splits)
    from fence_match_shape [OF m] obtain pre tag sp inner sp' post where
      s: "prepare raw = pre @ backticks @ tag @ sp @ inner @ sp' @ backticks @ post \<and>
         (\<forall>x\<in>set tag. in_class CLetter x) \<and> (\<forall>x\<in>set sp. js_ws x) \<and>
         (\<forall>x\<in>set sp'. js_ws x) \<and> group1 m = inner \<and>
         (\<forall>u w. inner @ sp' @ [96, 96] \<noteq> u @ backticks @ w)"
      by (elim exE)
    then have g: "group1 m = inner" by simp
    from s n c have "prepare raw = pre @ backticks @ tag @ sp @ inner @ sp' @ backticks @ post \<and>
         (\<forall>x\<in>set tag. in_class CLetter x) \<and> (\<forall>x\<in>set sp. js_ws x) \<and>
         (\<forall>x\<in>set sp'. js_ws x) \<and> inner \<noteq> [] \<and> c = trim inner \<and>
         (\<forall>u w. inner @ sp' @ [96, 96] \<noteq> u @ backticks @ w)"
      unfolding g [symmetric] by simp
    then show "\<exists>pre tag sp inner sp' post.
         prepare raw = pre @ backticks @ tag @ sp @ inner @ sp' @ backticks @ post \<and>
         (\<forall>x\<in>set tag. in_class CLetter x) \<and> (\<forall>x\<in>set sp. js_ws x) \<and>
         (\<forall>x\<in>set sp'. js_ws x) \<and> inner \<noteq> [] \<and> c = trim inner \<and>
         (\<forall>u w. inner @ sp' @ [96, 96] \<noteq> u @ backticks @ w)"
      by (intro exI)
  qed
  have slice: "slice_candidate (prepare raw) = Some c \<longleftrightarrow>
      (\<exists>p q. prepare raw = p @ c @ q \<and> 123 \<notin> set p \<and> 125 \<notin> set q \<and> c \<noteq> [] \<and>
         hd c = 123 \<and> last c = 125)"
  proof
    assume "slice_candidate (prepare raw) = Some c"
    then show "\<exists>p q. prepare raw = p @ c @ q \<and> 123 \<notin> set p \<and> 125 \<notin> set q \<and> c \<noteq> [] \<and>
         hd c = 123 \<and> last c = 125"
      by (rule slice_candidate_shape)
  next
    assume "\<exists>p q. prepare raw = p @ c @ q \<and> 123 \<notin> set p \<and> 125 \<notin> set q \<and> c \<noteq> [] \<and>
         hd c = 123 \<and> last c = 125"
    then obtain p q where "prepare raw = p @ c @ q" "123 \<notin> set p" "125 \<notin> set q" "c \<noteq> []"
      "hd c = 123" "last c = 125" by blast
    then show "slice_candidate (prepare raw) = Some c" by (rule slice_candidate_complete)
  qed
  note o1 = conjunct1 [OF order]
    and o2 = conjunct1 [OF conjunct2 [OF order]]
    and o3 = conjunct1 [OF conjunct2 [OF conjunct2 [OF order]]]
    and o4 = conjunct2 [OF conjunct2 [OF conjunct2 [OF order]]]
  note q1 = conjunct1 [OF quoted_fence_text_strategies]
    and q2 = conjunct1 [OF conjunct2 [OF quoted_fence_text_strategies]]
    and q3 = conjunct2 [OF conjunct2 [OF quoted_fence_text_strategies]]
  note a1 = conjunct1 [OF fenced_array_text_strategies]
    and a2 = conjunct2 [OF conjunct2 [OF fenced_array_text_strategies]]
  note t1 = conjunct1 [OF two_fences_text_strategies]
    and t2 = conjunct2 [OF two_fences_text_strategies]
  show ?thesis
    by (intro conjI, rule o1, rule o2, rule o3, rule o4, rule fence, rule slice,
        rule extract_fenced_text, rule direct_parse_wrapped_text,
        rule fence_candidate_wrapped_text, rule extractJsonFlexible_wrapped_text,
        rule q1, rule q2, rule q3, rule a1, rule a2, rule t1, rule t2)
qed

text \<open>
  The witness runs the three strategies: the direct parse on \<open>xy_text\<close>, the fence on
  \<open>fenced_text\<close>, and on \<open>wrapped_text\<close> the slice, whose candidate is found from the
  shape of the text, the object between \<open>Here: \<close> and \<open> thanks\<close>.
\<close>

theorem strategies_in_fixed_order_witness:
  "json_parse (prepare xy_text) =
     Some (JObj [(asc ''title'', JStr (asc ''T'')), (asc ''draftBody'', JStr (asc ''B'')),
                 (asc ''tags'', JArr [JStr (asc ''x''), JStr (asc ''y'')])]) \<and>
   extractJsonFlexible xy_text =
     JObj [(asc ''title'', JStr (asc ''T'')), (asc ''draftBody'', JStr (asc ''B'')),
           (asc ''tags'', JArr [JStr (asc ''x''), JStr (asc ''y'')])] \<and>
   json_parse (prepare fenced_text) = None \<and>
   try_parse (fence_candidate (prepare fenced_text)) =
     Some (JObj [(asc ''title'', JStr (asc ''T'')), (asc ''draftBody'', JStr (asc ''B'')),
                 (asc ''tags'', JArr [])]) \<and>
   extractJsonFlexible fenced_text =
     JObj [(asc ''title'', JStr (asc ''T'')), (asc ''draftBody'', JStr (asc ''B'')),
           (asc ''tags'', JArr [])] \<and>
   prepare wrapped_text =
     asc ''Here: '' @ asc ''{\"title\":\"T\",\"draftBody\":\"B\",\"tags\":[]}'' @ asc '' thanks'' \<and>
   json_parse (prepare wrapped_text) = None \<and>
   try_parse (fence_candidate (prepare wrapped_text)) = None \<and>
   slice_candidate (prepare wrapped_text) =
     Some (asc ''{\"title\":\"T\",\"draftBody\":\"B\",\"tags\":[]}'') \<and>
   try_parse (slice_candidate (prepare wrapped_text)) =
     Some (JObj [(asc ''title'', JStr (asc ''T'')), (asc ''draftBody'', JStr (asc ''B'')),
                 (asc ''tags'', JArr [])]) \<and>
   extractJsonFlexible wrapped_text =
     JObj [(asc ''title'', JStr (asc ''T'')), (asc ''draftBody'', JStr (asc ''B'')),
           (asc ''tags'', JArr [])]"
proof -
  let ?v = "JObj [(asc ''title'', JStr (asc ''T'')), (asc ''draftBody'', JStr (asc ''B'')),
                 (asc ''tags'', JArr [])]"
  let ?x = "JObj [(asc ''title'', JStr (asc ''T'')), (asc ''draftBody'', JStr (asc ''B'')),
                 (asc ''tags'', JArr [JStr (asc ''x''), JStr (asc ''y'')])]"
  let ?c = "asc ''{\"title\":\"T\",\"draftBody\":\"B\",\"tags\":[]}''"
  have x1: "json_parse (prepare xy_text) = Some ?x" by (rule direct_parse_xy_text)
  have "json_parse (prepare xy_text) = Some ?x \<longrightarrow> extractJsonFlexible xy_text = ?x"
    by (rule conjunct1 [OF strategies_in_fixed_order])
  with x1 have x2: "extractJsonFlexible xy_text = ?x" by (rule rev_mp)
  have d: "json_parse (prepare fenced_text) = None" by (rule direct_parse_fenced_text)
  have f: "try_parse (fence_candidate (prepare fenced_text)) = Some ?v"
    by (simp add: fence_candidate_fenced_text try_parse_def str_defs lex_defs)
  have "json_parse (prepare fenced_text) = None \<longrightarrow>
      try_parse (fence_candidate (prepare fenced_text)) = Some ?v \<longrightarrow>
      extractJsonFlexible fenced_text = ?v"
    by (rule conjunct1 [OF conjunct2 [OF strategies_in_fixed_order]])
  with d f have f2: "extractJsonFlexible fenced_text = ?v" by blast
  have p: "prepare wrapped_text = asc ''Here: '' @ ?c @ asc '' thanks''"
    by (simp add: wrapped_text_def str_defs prog_defs)
  have w1: "json_parse (prepare wrapped_text) = None" by (rule direct_parse_wrapped_text)
  have w2: "try_parse (fence_candidate (prepare wrapped_text)) = None"
    by (simp add: fence_candidate_wrapped_text try_parse_def)
  have sh: "\<exists>p q. prepare wrapped_text = p @ ?c @ q \<and> 123 \<notin> set p \<and> 125 \<notin> set q \<and> ?c \<noteq> [] \<and>
         hd ?c = 123 \<and> last ?c = 125"
    by (intro exI [of _ "asc ''Here: ''"] exI [of _ "asc '' thanks''"]) (simp add: p, simp add: asc_def)
  have "slice_candidate (prepare wrapped_text) = Some ?c \<longleftrightarrow>
      (\<exists>p q. prepare wrapped_text = p @ ?c @ q \<and> 123 \<notin> set p \<and> 125 \<notin> set q \<and> ?c \<noteq> [] \<and>
         hd ?c = 123 \<and> last ?c = 125)"
    by (rule conjunct1 [OF conjunct2 [OF conjunct2 [OF conjunct2 [OF conjunct2 [OF conjunct2
      [OF strategies_in_fixed_order]]]]]])
  from this sh have w3: "slice_candidate (prepare wrapped_text) = Some ?c" by (rule iffD2)
  have w4: "try_parse (slice_candidate (prepare wrapped_text)) = Some ?v"
    unfolding w3 by (simp add: try_parse_def str_defs lex_defs)
  have "json_parse (prepare wrapped_text) = None \<longrightarrow>
      try_parse (fence_candidate (prepare wrapped_text)) = None \<longrightarrow>
      try_parse (slice_candidate (prepare wrapped_text)) = Some ?v \<longrightarrow>
      extractJsonFlexible wrapped_text = ?v"
    by (rule conjunct1 [OF conjunct2 [OF conjunct2 [OF strategies_in_fixed_order]]])
  with w1 w2 w4 have w5: "extractJsonFlexible wrapped_text = ?v" by blast
  from x1 x2 d f f2 p w1 w2 w3 w4 w5 show ?thesis by (intro conjI)
qed

subsection \<open>C6: duplicates among the tags\<close>

text \<open>
  C6, as stated, fails. Without input tags the tags a, a, b of \<open>hello_text\<close> are
  written as they are, with the duplicate.
\<close>

theorem tags_keep_duplicates_counterexample:
  "main no_repair digit_nts hello_text [] =
     Inr \<lparr>title = asc ''Hello'', draftBody = asc ''body text'',
          tags = [asc ''a'', asc ''a'', asc ''b'']\<rparr> \<and>
   \<not> distinct [asc ''a'', asc ''a'', asc ''b'']"
  using main_hello_text [of no_repair digit_nts] by simp

text \<open>
  C6, amended. When there is at least one input tag, the tags of the record that
  \<open>main\<close> returns have no duplicates. Without input tags the record is the one of the
  extractor, its tags unchanged.
\<close>

theorem merged_tags_have_no_duplicates:
  "(main gen nts text inputTags = Inr d \<longrightarrow> inputTags \<noteq> [] \<longrightarrow> distinct (tags d)) \<and>
   main gen nts text [] = extract_draft gen nts text"
proof
  show "main gen nts text inputTags = Inr d \<longrightarrow> inputTags \<noteq> [] \<longrightarrow> distinct (tags d)"
    by (auto simp: main_def merge_tags_def distinct_array_from_set split: sum.splits)
  show "main gen nts text [] = extract_draft gen nts text"
    by (simp add: main_def merge_tags_def split: sum.splits)
qed

theorem merged_tags_have_no_duplicates_witness:
  "main no_repair digit_nts hello_text [asc ''b'', asc ''c''] =
     Inr \<lparr>title = asc ''Hello'', draftBody = asc ''body text'',
          tags = [asc ''a'', asc ''b'', asc ''c'']\<rparr> \<and>
   [asc ''b'', asc ''c''] \<noteq> [] \<and>
   distinct (tags \<lparr>title = asc ''Hello'', draftBody = asc ''body text'',
          tags = [asc ''a'', asc ''b'', asc ''c'']\<rparr>)"
proof -
  let ?d = "\<lparr>title = asc ''Hello'', draftBody = asc ''body text'',
          tags = [asc ''a'', asc ''b'', asc ''c'']\<rparr>"
  have m: "main no_repair digit_nts hello_text [asc ''b'', asc ''c''] = Inr ?d"
    by (simp add: hello_text_def str_defs lex_defs prog_defs)
  have n: "[asc ''b'', asc ''c''] \<noteq> []" by simp
  have "main no_repair digit_nts hello_text [asc ''b'', asc ''c''] = Inr ?d \<longrightarrow>
        [asc ''b'', asc ''c''] \<noteq> [] \<longrightarrow> distinct (tags ?d)"
    by (rule conjunct1 [OF merged_tags_have_no_duplicates])
  with m n have "distinct (tags ?d)" by blast
  with m n show ?thesis by blast
qed

subsection \<open>C7: merging the tags\<close>

text \<open>
  C7. With a non-empty list of input tags, the tags of the final record are the union
  of the extracted tags and the input tags, without duplicates; title and draftBody are
  those of the extractor. The witness is the example of the claim: the extracted tags
  x, y and the input tags y, z.
\<close>

theorem merge_is_deduplicated_union:
  assumes "extract_draft gen nts text = Inr d" and "inputTags \<noteq> []"
  shows "\<exists>d'. main gen nts text inputTags = Inr d' \<and> title d' = title d \<and>
           draftBody d' = draftBody d \<and>
           set (tags d') = set (tags d) \<union> set inputTags \<and> distinct (tags d')"
  using assms by (simp add: main_def merge_tags_def set_array_from_set distinct_array_from_set)

theorem merge_is_deduplicated_union_witness:
  "extract_draft no_repair digit_nts xy_text =
     Inr \<lparr>title = asc ''T'', draftBody = asc ''B'', tags = [asc ''x'', asc ''y'']\<rparr> \<and>
   [asc ''y'', asc ''z''] \<noteq> [] \<and>
   (\<exists>d'. main no_repair digit_nts xy_text [asc ''y'', asc ''z''] = Inr d' \<and>
      set (tags d') = {asc ''x'', asc ''y'', asc ''z''} \<and> distinct (tags d'))"
proof -
  have e: "extract_draft no_repair digit_nts xy_text =
     Inr \<lparr>title = asc ''T'', draftBody = asc ''B'', tags = [asc ''x'', asc ''y'']\<rparr>"
    by (rule extract_xy_text)
  have n: "[asc ''y'', asc ''z''] \<noteq> []" by simp
  from merge_is_deduplicated_union [OF e n] obtain d' where
    "main no_repair digit_nts xy_text [asc ''y'', asc ''z''] = Inr d'"
    "set (tags d') = {asc ''x'', asc ''y''} \<union> {asc ''y'', asc ''z''}" "distinct (tags d')"
    by auto
  then have "\<exists>d'. main no_repair digit_nts xy_text [asc ''y'', asc ''z''] = Inr d' \<and>
      set (tags d') = {asc ''x'', asc ''y'', asc ''z''} \<and> distinct (tags d')"
    by auto
  with e n show ?thesis by blast
qed

subsection \<open>C8: a repair that fails\<close>

text \<open>
  C8. When the text gives no truthy value, so that the repair call is made, and the
  answer of the repair call gives no JSON object, the record is derived from the text of
  the first generation: its title from the lines of that text, its draftBody from that
  text. The answer of the repair call does not occur in it.
\<close>

theorem failed_repair_derives_from_original_text:
  assumes "\<not> truthy (extractJsonFlexible text)" and "\<forall>ms. repairJson gen text \<noteq> JObj ms"
  shows "extract_draft gen nts text =
           Inr \<lparr>title = title_of (firstRealLine text), draftBody = derived_body text,
                tags = []\<rparr>"
proof -
  from assms have "\<And>ms. parsed_of gen text \<noteq> JObj ms" by (simp add: parsed_of_def)
  then show ?thesis by (simp add: extract_non_object from_text_eq)
qed

theorem failed_repair_derives_from_original_text_witness:
  "\<not> truthy (extractJsonFlexible prose_text) \<and>
   (\<forall>ms. repairJson prose_repair prose_text \<noteq> JObj ms) \<and>
   extract_draft prose_repair digit_nts prose_text =
     Inr \<lparr>title = asc ''My Great Title'', draftBody = asc ''Some body content'', tags = []\<rparr>"
proof -
  have a: "\<not> truthy (extractJsonFlexible prose_text)"
    by (simp add: prose_text_def str_defs lex_defs prog_defs)
  have "repairJson prose_repair prose_text = JNull"
    by (simp add: prose_text_def prose_repair_def str_defs lex_defs prog_defs)
  then have b: "\<forall>ms. repairJson prose_repair prose_text \<noteq> JObj ms" by simp
  from failed_repair_derives_from_original_text [OF a b, of digit_nts]
    title_prose_text derived_body_prose_text a b
  show ?thesis by simp
qed

subsection \<open>C9: zero-width spaces and surrounding white space\<close>




subsection \<open>C10: tags that are not an array\<close>

text \<open>
  C10. When the fallback chain ends with an object whose \<open>tags\<close> is not an array (a
  string, a number, anything else, or absent), the tags taken from it are empty and
  taking them raises nothing: every record the extractor returns has no tags, and an
  exception, if there is one, comes from the title or the draftBody.
\<close>

theorem non_array_tags_give_no_tags:
  assumes "parsed_of gen text = JObj ms"
    and "\<forall>xs. js_get (JObj ms) (asc ''tags'') \<noteq> Some (JArr xs)"
  shows "tags_of nts (JObj ms) = Inr [] \<and>
         (\<forall>d. extract_draft gen nts text = Inr d \<longrightarrow> tags d = []) \<and>
         (\<forall>e. extract_draft gen nts text = Inl e \<longrightarrow>
            sanitizeTitle nts (js_get (JObj ms) (asc ''title'')) = Inl e \<or>
            js_String nts (or_empty (js_get (JObj ms) (asc ''draftBody''))) = Inl e)"
proof -
  have t: "tags_of nts (JObj ms) = Inr []"
    using assms(2) by (auto simp: tags_of_def split: option.splits json.splits)
  have d: "\<forall>d. extract_draft gen nts text = Inr d \<longrightarrow> tags d = []"
    using assms(1) t
    by (auto simp: extract_draft_def Let_def from_parsed_def from_text_eq
        split: sum.splits prod.splits if_splits)
  have e: "\<forall>e. extract_draft gen nts text = Inl e \<longrightarrow>
            sanitizeTitle nts (js_get (JObj ms) (asc ''title'')) = Inl e \<or>
            js_String nts (or_empty (js_get (JObj ms) (asc ''draftBody''))) = Inl e"
    using assms(1) t
    by (auto simp: extract_draft_def Let_def from_parsed_def from_text_eq
        split: sum.splits prod.splits if_splits)
  from t d e show ?thesis by blast
qed

theorem non_array_tags_give_no_tags_witness:
  "parsed_of no_repair string_tags_text =
     JObj [(asc ''title'', JStr (asc ''T'')), (asc ''draftBody'', JStr (asc ''B'')),
           (asc ''tags'', JStr (asc ''x''))] \<and>
   extract_draft no_repair digit_nts string_tags_text =
     Inr \<lparr>title = asc ''T'', draftBody = asc ''B'', tags = []\<rparr> \<and>
   tags \<lparr>title = asc ''T'', draftBody = asc ''B'', tags = []\<rparr> = []"
proof -
  let ?ms = "[(asc ''title'', JStr (asc ''T'')), (asc ''draftBody'', JStr (asc ''B'')),
           (asc ''tags'', JStr (asc ''x''))]"
  have p: "parsed_of no_repair string_tags_text = JObj ?ms"
    by (rule parsed_of_string_tags_text)
  have n: "\<forall>xs. js_get (JObj ?ms) (asc ''tags'') \<noteq> Some (JArr xs)"
    by (simp add: asc_def)
  have x: "extract_draft no_repair digit_nts string_tags_text =
     Inr \<lparr>title = asc ''T'', draftBody = asc ''B'', tags = []\<rparr>"
    by (simp add: string_tags_text_def str_defs lex_defs prog_defs)
  from non_array_tags_give_no_tags [OF p n, of digit_nts] x
  have "tags \<lparr>title = asc ''T'', draftBody = asc ''B'', tags = []\<rparr> = []" by blast
  with p x show ?thesis by blast
qed

end
